theory Spec2Isabelle
  imports Main
begin

section \<open>Python strings and the standard-library functions the handlers call\<close>

text \<open>
  A Python \<open>str\<close> is modelled by the \<open>string\<close> (list of 8-bit characters) holding
  its UTF-8 encoding, so an ASCII character is one \<open>char\<close> and \<open>quote\<close>, which
  percent-encodes the UTF-8 bytes of its argument, works on the list as it stands.
  The functions of this section are those of the Python standard library that
  \<open>s3_handler.py\<close> and \<open>main.py\<close> call; they follow CPython's definitions.
\<close>

fun startswith :: "string \<Rightarrow> string \<Rightarrow> bool" where
  "startswith s [] = True"
| "startswith [] (p # ps) = False"
| "startswith (c # cs) (p # ps) = (c = p \<and> startswith cs ps)"

text \<open>\<open>s.find(sub)\<close>: the lowest index where \<open>sub\<close> starts in \<open>s\<close>, or \<open>-1\<close>.\<close>

fun str_find :: "string \<Rightarrow> string \<Rightarrow> int" where
  "str_find [] sub = (if sub = [] then 0 else - 1)"
| "str_find (c # cs) sub =
     (if startswith (c # cs) sub then 0
      else (let r = str_find cs sub in if r = - 1 then - 1 else r + 1))"

text \<open>\<open>sub in s\<close> on strings.\<close>

definition str_contains :: "string \<Rightarrow> string \<Rightarrow> bool" where
  "str_contains s sub = (str_find s sub \<noteq> - 1)"

text \<open>\<open>s.rfind(c)\<close> for a one-character \<open>c\<close>: the highest index of \<open>c\<close>, or \<open>-1\<close>.\<close>

fun str_rfind :: "string \<Rightarrow> char \<Rightarrow> int" where
  "str_rfind [] x = - 1"
| "str_rfind (c # cs) x =
     (let r = str_rfind cs x in
      if r \<noteq> - 1 then r + 1 else if c = x then 0 else - 1)"

text \<open>\<open>s.lstrip('/')\<close>.\<close>

definition lstrip_slash :: "string \<Rightarrow> string" where
  "lstrip_slash s = dropWhile (\<lambda>c. c = CHR ''/'') s"

text \<open>
  \<open>os.path.splitext\<close> (\<open>posixpath\<close>, through \<open>genericpath._splitext\<close> with
  separator \<open>/\<close> and no alternative separator): the extension starts at the last dot
  of the last path component, unless that component has only dots before it.
  \<open>splitext_loop\<close> is the \<open>while filenameIndex < dotIndex\<close> loop that skips the
  leading dots of the component.
\<close>

function splitext_loop :: "string \<Rightarrow> int \<Rightarrow> int \<Rightarrow> string \<times> string" where
  "splitext_loop p filenameIndex dotIndex =
     (if filenameIndex < dotIndex then
        (if take 1 (drop (nat filenameIndex) p) \<noteq> ''.''
         then (take (nat dotIndex) p, drop (nat dotIndex) p)
         else splitext_loop p (filenameIndex + 1) dotIndex)
      else (p, []))"
  by pat_completeness auto
termination
  by (relation "measure (\<lambda>(p, f, d). nat (d - f))") auto

declare splitext_loop.simps [simp del]

definition splitext :: "string \<Rightarrow> string \<times> string" where
  "splitext p =
     (let sepIndex = str_rfind p CHR ''/'';
          dotIndex = str_rfind p CHR ''.''
      in if dotIndex > sepIndex then splitext_loop p (sepIndex + 1) dotIndex
         else (p, []))"

text \<open>\<open>os.path.basename\<close> (\<open>posixpath\<close>): what follows the last \<open>/\<close>.\<close>

definition basename :: "string \<Rightarrow> string" where
  "basename p = drop (nat (str_rfind p CHR ''/'' + 1)) p"

text \<open>
  \<open>str.lower\<close> and \<open>str.upper\<close> on the ASCII letters. Among the characters
  outside ASCII, \<open>upper\<close> also maps the dotless i (U+0131, bytes C4 B1) to \<open>I\<close>, the
  one such mapping that can produce a placeholder word of \<open>main\<close>; no character
  outside ASCII lowers to a letter of the image extensions, so the membership tests
  of the source agree with the model's.
\<close>

definition char_lower :: "char \<Rightarrow> char" where
  "char_lower c =
     (let n = (of_char c :: nat) in if 65 \<le> n \<and> n \<le> 90 then char_of (n + 32) else c)"

definition str_lower :: "string \<Rightarrow> string" where
  "str_lower s = map char_lower s"

definition char_upper :: "char \<Rightarrow> char" where
  "char_upper c =
     (let n = (of_char c :: nat) in if 97 \<le> n \<and> n \<le> 122 then char_of (n - 32) else c)"

fun str_upper :: "string \<Rightarrow> string" where
  "str_upper [] = []"
| "str_upper [c] = [char_upper c]"
| "str_upper (c # d # cs) =
     (if (of_char c :: nat) = 196 \<and> (of_char d :: nat) = 177
      then CHR ''I'' # str_upper cs
      else char_upper c # str_upper (d # cs))"

text \<open>
  \<open>str.strip()\<close> removes the characters with \<open>str.isspace()\<close> from both ends:
  the ASCII ones (9 to 13, 28 to 32) and, in UTF-8, U+0085, U+00A0, U+1680, U+2000 to
  U+200A, U+2028, U+2029, U+202F, U+205F and U+3000. \<open>lstrip_ws\<close> drops them from
  the head of a list; \<open>rstrip_rev\<close> does so on the reversed list, where the bytes of a
  character come last byte first.
\<close>

definition ascii_space :: "nat \<Rightarrow> bool" where
  "ascii_space n = ((9 \<le> n \<and> n \<le> 13) \<or> (28 \<le> n \<and> n \<le> 32))"

definition ws2 :: "nat \<Rightarrow> nat \<Rightarrow> bool" where
  "ws2 a b = (a = 194 \<and> (b = 133 \<or> b = 160))"

definition ws3 :: "nat \<Rightarrow> nat \<Rightarrow> nat \<Rightarrow> bool" where
  "ws3 a b c =
     ((a = 225 \<and> b = 154 \<and> c = 128) \<or>
      (a = 226 \<and> b = 128 \<and> ((128 \<le> c \<and> c \<le> 138) \<or> c = 168 \<or> c = 169 \<or> c = 175)) \<or>
      (a = 226 \<and> b = 129 \<and> c = 159) \<or>
      (a = 227 \<and> b = 128 \<and> c = 128))"

fun lstrip_ws :: "string \<Rightarrow> string" where
  "lstrip_ws [] = []"
| "lstrip_ws (a # rest) =
     (if ascii_space (of_char a) then lstrip_ws rest
      else (case rest of
              [] \<Rightarrow> a # rest
            | b # rest' \<Rightarrow>
                if ws2 (of_char a) (of_char b) then lstrip_ws rest'
                else (case rest' of
                        [] \<Rightarrow> a # rest
                      | c # rest'' \<Rightarrow>
                          if ws3 (of_char a) (of_char b) (of_char c) then lstrip_ws rest''
                          else a # rest)))"

fun rstrip_rev :: "string \<Rightarrow> string" where
  "rstrip_rev [] = []"
| "rstrip_rev (c # rest) =
     (if ascii_space (of_char c) then rstrip_rev rest
      else (case rest of
              [] \<Rightarrow> c # rest
            | b # rest' \<Rightarrow>
                if ws2 (of_char b) (of_char c) then rstrip_rev rest'
                else (case rest' of
                        [] \<Rightarrow> c # rest
                      | a # rest'' \<Rightarrow>
                          if ws3 (of_char a) (of_char b) (of_char c) then rstrip_rev rest''
                          else c # rest)))"

definition str_strip :: "string \<Rightarrow> string" where
  "str_strip s = rev (rstrip_rev (rev (lstrip_ws s)))"

text \<open>\<open>str(n)\<close> for an integer: the decimal digits, with a minus sign when negative.\<close>

function str_nat :: "nat \<Rightarrow> string" where
  "str_nat n =
     (if n < 10 then [char_of (48 + n)]
      else str_nat (n div 10) @ [char_of (48 + n mod 10)])"
  by pat_completeness auto
termination
  by (relation "measure (\<lambda>n. n)") auto

declare str_nat.simps [simp del]

definition str_int :: "int \<Rightarrow> string" where
  "str_int i = (if i < 0 then CHR ''-'' # str_nat (nat (- i)) else str_nat (nat i))"

text \<open>
  \<open>urllib.parse.quote(s, safe='/')\<close>: every byte of the UTF-8 encoding that is not a
  letter, a digit, one of \<open>_.-~\<close> or \<open>/\<close> becomes \<open>%XX\<close>, in upper-case hexadecimal.
\<close>

definition hexdigit :: "nat \<Rightarrow> char" where
  "hexdigit n = (if n < 10 then char_of (48 + n) else char_of (55 + n))"

definition quote_safe :: "char \<Rightarrow> bool" where
  "quote_safe c =
     (let n = (of_char c :: nat) in
      (65 \<le> n \<and> n \<le> 90) \<or> (97 \<le> n \<and> n \<le> 122) \<or> (48 \<le> n \<and> n \<le> 57) \<or>
      c = CHR ''_'' \<or> c = CHR ''.'' \<or> c = CHR ''-'' \<or> c = CHR ''~'' \<or> c = CHR ''/'')"

definition quote_char :: "char \<Rightarrow> string" where
  "quote_char c =
     (if quote_safe c then [c]
      else [CHR ''%'', hexdigit (of_char c div 16), hexdigit (of_char c mod 16)])"

definition quote :: "string \<Rightarrow> string" where
  "quote s = concat (map quote_char s)"

text \<open>
  \<open>urllib.parse.unquote_to_bytes\<close>: a \<open>%\<close> followed by two hexadecimal digits (either
  case) becomes the byte they name; any other \<open>%\<close> stays.
\<close>

definition hexval :: "char \<Rightarrow> nat option" where
  "hexval c =
     (let n = (of_char c :: nat) in
      if 48 \<le> n \<and> n \<le> 57 then Some (n - 48)
      else if 65 \<le> n \<and> n \<le> 70 then Some (n - 55)
      else if 97 \<le> n \<and> n \<le> 102 then Some (n - 87)
      else None)"

fun unquote_to_bytes :: "string \<Rightarrow> string" where
  "unquote_to_bytes [] = []"
| "unquote_to_bytes (c # cs) =
     (if c = CHR ''%'' then
        (case cs of
           h # l # rest \<Rightarrow>
             (case (hexval h, hexval l) of
                (Some a, Some b) \<Rightarrow> char_of (16 * a + b) # unquote_to_bytes rest
              | _ \<Rightarrow> c # unquote_to_bytes cs)
         | _ \<Rightarrow> c # unquote_to_bytes cs)
      else c # unquote_to_bytes cs)"

text \<open>
  \<open>bytes.decode('utf-8', errors='replace')\<close>, read on the UTF-8 encoding of its
  result: a well-formed sequence is kept, and every maximal ill-formed part (a byte that
  cannot start a character, or a start with the continuation bytes that may follow
  it cut short) becomes U+FFFD, whose encoding is the bytes EF BF BD.
\<close>

definition replacement_char :: string where
  "replacement_char = [char_of (239::nat), char_of (191::nat), char_of (189::nat)]"

definition is_cont :: "char \<Rightarrow> bool" where
  "is_cont c = (let n = (of_char c :: nat) in 128 \<le> n \<and> n \<le> 191)"

definition second_ok :: "char \<Rightarrow> char \<Rightarrow> bool" where
  "second_ok b c =
     (let n = (of_char b :: nat); m = (of_char c :: nat) in
      is_cont c \<and>
      \<not> (n = 224 \<and> m < 160) \<and> \<not> (n = 237 \<and> 160 \<le> m) \<and>
      \<not> (n = 240 \<and> m < 144) \<and> \<not> (n = 244 \<and> 144 \<le> m))"

fun utf8_replace :: "string \<Rightarrow> string" where
  "utf8_replace [] = []"
| "utf8_replace (b # bs) =
     (let n = (of_char b :: nat) in
      if n < 128 then b # utf8_replace bs
      else if n < 194 \<or> 245 \<le> n then replacement_char @ utf8_replace bs
      else
        (case bs of
           [] \<Rightarrow> replacement_char
         | c2 # cs \<Rightarrow>
             if \<not> second_ok b c2 then replacement_char @ utf8_replace bs
             else if n < 224 then b # c2 # utf8_replace cs
             else
               (case cs of
                  [] \<Rightarrow> replacement_char
                | c3 # ds \<Rightarrow>
                    if \<not> is_cont c3 then replacement_char @ utf8_replace cs
                    else if n < 240 then b # c2 # c3 # utf8_replace ds
                    else
                      (case ds of
                         [] \<Rightarrow> replacement_char
                       | c4 # es \<Rightarrow>
                           if \<not> is_cont c4 then replacement_char @ utf8_replace ds
                           else b # c2 # c3 # c4 # utf8_replace es))))"

text \<open>
  \<open>urllib.parse.unquote\<close>: a string with no \<open>%\<close> is returned as it is; otherwise
  the percent-decoded bytes are decoded as UTF-8 with replacement.
\<close>

definition unquote :: "string \<Rightarrow> string" where
  "unquote s = (if CHR ''%'' \<notin> set s then s else utf8_replace (unquote_to_bytes s))"

section \<open>Exceptions, configuration and the outside world\<close>

text \<open>
  An exception is kept by the class the handlers of \<open>s3_handler.py\<close> tell apart and
  its text \<open>str(e)\<close>. A \<open>ClientError\<close> of botocore also carries the outcome of
  \<open>int(e.response['Error']['Code'])\<close>, the expression its handler evaluates:
  \<open>Inr n\<close> when the code reads as the integer \<open>n\<close>, \<open>Inl m\<close> when the conversion
  itself raises (a code such as \<open>NoSuchKey\<close>), \<open>m\<close> being the text of that error.
\<close>

datatype pyexn =
    ClientError "string + int" string
  | RequestException string
  | ValueError string
  | OtherException string

fun exn_str :: "pyexn \<Rightarrow> string" where
  "exn_str (ClientError code msg) = msg"
| "exn_str (RequestException msg) = msg"
| "exn_str (ValueError msg) = msg"
| "exn_str (OtherException msg) = msg"

text \<open>The \<open>Config\<close> dataclass of \<open>cli.py\<close>.\<close>

record config =
  input_csv :: string
  output_csv :: string
  bucket_name :: string
  aws_region :: string
  target_width :: int
  target_height :: int
  dry_run :: bool
  debug_save :: bool
  debug_dir :: string
  test_mode :: bool
  test_rows :: int

text \<open>
  What \<open>requests.head(url, timeout=10)\<close> does: it returns a response with a status
  code, raises a \<open>requests.RequestException\<close>, or raises another exception. It never
  raises botocore's \<open>ClientError\<close>.
\<close>

datatype head_reply =
    StatusCode int
  | RaisedRequestException string
  | RaisedException string

text \<open>
  The calls that leave the process, in the order made. The outside world is any
  deterministic function of that history: each primitive below reads the calls made
  so far, so the store may answer a second probe differently after an upload.
  \<^item> \<open>urlparse_path url\<close> is \<open>urllib.parse.urlparse(url).path\<close>, or the
    \<open>ValueError\<close> that \<open>urlparse\<close> raises on a malformed network location;
  \<^item> \<open>head_object\<close> is \<open>s3.head_object(Bucket, Key)\<close>: \<open>None\<close> when it returns;
  \<^item> \<open>requests_head\<close> is \<open>requests.head(url, timeout=10)\<close>;
  \<^item> \<open>fetch_bytes\<close> is \<open>requests.get(url, timeout=10)\<close> followed by
    \<open>raise_for_status()\<close>, giving \<open>response.content\<close>;
  \<^item> \<open>normalize\<close> is the Pillow part of \<open>process_image_from_url\<close>: decoding,
    conversion to RGB, \<open>center_crop_image\<close> onto the target canvas (floating-point
    arithmetic), the debug copy when a path is given, and JPEG encoding;
  \<^item> \<open>upload_fileobj\<close> is \<open>s3.upload_fileobj(buffer, Bucket, Key, ExtraArgs)\<close>.
  Logging is not modelled.
\<close>

datatype event =
    HeadObject string string
  | RequestsHead string
  | FetchBytes string
  | Normalize string int int "string option"
  | UploadFileobj string string string

record env =
  urlparse_path :: "string \<Rightarrow> pyexn + string"
  head_object :: "event list \<Rightarrow> string \<Rightarrow> string \<Rightarrow> pyexn option"
  requests_head :: "event list \<Rightarrow> string \<Rightarrow> head_reply"
  fetch_bytes :: "event list \<Rightarrow> string \<Rightarrow> pyexn + string"
  normalize :: "event list \<Rightarrow> string \<Rightarrow> int \<Rightarrow> int \<Rightarrow> string option \<Rightarrow> pyexn + string"
  upload_fileobj :: "event list \<Rightarrow> string \<Rightarrow> string \<Rightarrow> string \<Rightarrow> pyexn option"

section \<open>\<open>s3_handler.py\<close>\<close>

text \<open>\<open>S3Handler.extract_s3_path\<close>.\<close>

definition extract_s3_path :: "env \<Rightarrow> string \<Rightarrow> pyexn + string" where
  "extract_s3_path e url =
     (if url = [] \<or> str_strip url = [] then Inl (ValueError ''Empty or invalid URL'')
      else (case urlparse_path e url of
              Inl x \<Rightarrow> Inl x
            | Inr path \<Rightarrow> Inr (lstrip_slash path)))"

text \<open>
  \<open>S3Handler.generate_s3_key\<close>. Its \<open>except\<close> clause logs and raises the same
  exception again.
\<close>

definition image_extensions :: "string list" where
  "image_extensions = [''.png'', ''.jpeg'', ''.jpg'', ''.gif'', ''.webp'']"

definition generate_s3_key :: "env \<Rightarrow> string \<Rightarrow> pyexn + string" where
  "generate_s3_key e original_url =
     (let path_start = str_find original_url ''/wp-content/'' in
      if path_start \<noteq> - 1 then
        (let key_path = drop (nat path_start) original_url;
             base = fst (splitext key_path)
         in Inr (lstrip_slash base @ ''.jpg''))
      else
        (case extract_s3_path e original_url of
           Inl x \<Rightarrow> Inl x
         | Inr path \<Rightarrow>
             (let base = fst (splitext path); ext = snd (splitext path) in
              if str_lower ext \<in> set image_extensions then Inr (base @ ''.jpg'')
              else Inr path)))"

text \<open>\<open>S3Handler.get_s3_url\<close>.\<close>

definition get_s3_url :: "config \<Rightarrow> string \<Rightarrow> string" where
  "get_s3_url cfg s3_key =
     ''https://'' @ bucket_name cfg @ ''.s3.'' @ aws_region cfg @ ''.amazonaws.com/'' @
     quote s3_key"

text \<open>
  \<open>S3Handler.check_s3_object_exists_and_accessible\<close>: the three encodings of the
  key, the loop that removes duplicates keeping the first occurrence, and the loop over
  the variations. The result of the probe is the tuple
  \<open>(needs_upload, status_code, status_message, actual_s3_key_found)\<close>. An exception
  raised inside the \<open>ClientError\<close> handler (the conversion of the error code) is not
  caught by the sibling handlers and leaves the function.
\<close>

definition s3_key_variations :: "string \<Rightarrow> string list" where
  "s3_key_variations s3_key = [s3_key, unquote s3_key, quote s3_key]"

fun unique_loop :: "string list \<Rightarrow> string set \<Rightarrow> string list \<Rightarrow> string list" where
  "unique_loop [] seen unique_variations = unique_variations"
| "unique_loop (key # keys) seen unique_variations =
     (if key \<notin> seen then unique_loop keys (insert key seen) (unique_variations @ [key])
      else unique_loop keys seen unique_variations)"

definition unique_variations :: "string \<Rightarrow> string list" where
  "unique_variations s3_key = unique_loop (s3_key_variations s3_key) {} []"

type_synonym probe = "bool \<times> int \<times> string \<times> string"

fun check_loop ::
  "config \<Rightarrow> env \<Rightarrow> string \<Rightarrow> string list \<Rightarrow> event list \<Rightarrow> (pyexn + probe) \<times> event list"
where
  "check_loop cfg e s3_key [] w = (Inr (True, 404, ''NOT_EXISTS'', s3_key), w)"
| "check_loop cfg e s3_key (attempt_key # rest) w =
     (let w1 = w @ [HeadObject (bucket_name cfg) attempt_key] in
      case head_object e w (bucket_name cfg) attempt_key of
        None \<Rightarrow>
          (let s3_url =
                 ''https://'' @ bucket_name cfg @ ''.s3.'' @ aws_region cfg @
                 ''.amazonaws.com/'' @ quote attempt_key;
               w2 = w1 @ [RequestsHead s3_url]
           in case requests_head e w1 s3_url of
                StatusCode status_code \<Rightarrow>
                  if status_code = 200 then
                    (Inr (False, 200, ''EXISTS_ACCESSIBLE'', attempt_key), w2)
                  else if status_code = 403 then
                    (Inr (True, 403, ''EXISTS_403_REUPLOAD'', attempt_key), w2)
                  else
                    (Inr (True, status_code,
                          ''EXISTS_'' @ str_int status_code @ ''_REUPLOAD'', attempt_key), w2)
              | RaisedRequestException m \<Rightarrow>
                  (Inr (True, 0, ''ACCESS_TEST_ERROR'', attempt_key), w2)
              | RaisedException m \<Rightarrow>
                  (Inr (True, 0, ''UNKNOWN_ERROR'', attempt_key), w2))
      | Some (ClientError code msg) \<Rightarrow>
          (case code of
             Inl m \<Rightarrow> (Inl (ValueError m), w1)
           | Inr error_code \<Rightarrow>
               if error_code = 404 then check_loop cfg e s3_key rest w1
               else
                 (Inr (True, error_code, ''S3_ERROR_'' @ str_int error_code, attempt_key), w1))
      | Some (RequestException m) \<Rightarrow>
          (Inr (True, 0, ''ACCESS_TEST_ERROR'', attempt_key), w1)
      | Some (ValueError m) \<Rightarrow> (Inr (True, 0, ''UNKNOWN_ERROR'', attempt_key), w1)
      | Some (OtherException m) \<Rightarrow> (Inr (True, 0, ''UNKNOWN_ERROR'', attempt_key), w1))"

definition check_s3_object_exists_and_accessible ::
  "config \<Rightarrow> env \<Rightarrow> event list \<Rightarrow> string \<Rightarrow> (pyexn + probe) \<times> event list"
where
  "check_s3_object_exists_and_accessible cfg e w s3_key =
     check_loop cfg e s3_key (unique_variations s3_key) w"

text \<open>\<open>S3Handler.upload_to_s3\<close>.\<close>

definition upload_to_s3 ::
  "config \<Rightarrow> env \<Rightarrow> event list \<Rightarrow> string \<Rightarrow> string \<Rightarrow> (pyexn + string) \<times> event list"
where
  "upload_to_s3 cfg e w image_buffer s3_key =
     (let w1 = w @ [UploadFileobj image_buffer (bucket_name cfg) s3_key] in
      case upload_fileobj e w image_buffer (bucket_name cfg) s3_key of
        Some x \<Rightarrow> (Inl x, w1)
      | None \<Rightarrow> (Inr ''UPLOADED'', w1))"

section \<open>\<open>image_processor.py\<close>\<close>

text \<open>\<open>os.path.join\<close> (\<open>posixpath\<close>) of two components.\<close>

definition path_join :: "string \<Rightarrow> string \<Rightarrow> string" where
  "path_join a b =
     (if startswith b ''/'' then b
      else if a = [] \<or> (a \<noteq> [] \<and> last a = CHR ''/'') then a @ b
      else a @ ''/'' @ b)"

text \<open>
  \<open>ImageProcessor.process_image_from_url\<close>: the download, then the Pillow pipeline,
  which is given the debug path when \<open>debug_save\<close> is set and the file name is not
  empty. Any exception is logged and raised again.
\<close>

definition process_image_from_url ::
  "config \<Rightarrow> env \<Rightarrow> event list \<Rightarrow> string \<Rightarrow> string option \<Rightarrow> (pyexn + string) \<times> event list"
where
  "process_image_from_url cfg e w url debug_filename =
     (let w1 = w @ [FetchBytes url] in
      case fetch_bytes e w url of
        Inl x \<Rightarrow> (Inl x, w1)
      | Inr content \<Rightarrow>
          (let debug_path =
                 (case debug_filename of
                    None \<Rightarrow> None
                  | Some f \<Rightarrow>
                      if debug_save cfg \<and> f \<noteq> [] then Some (path_join (debug_dir cfg) f)
                      else None);
               w2 = w1 @ [Normalize content (target_width cfg) (target_height cfg) debug_path]
           in (normalize e w1 content (target_width cfg) (target_height cfg) debug_path, w2)))"

section \<open>\<open>main.py\<close>\<close>

text \<open>
  \<open>process_single_image\<close> returns the tuple \<open>(s3_key, status, s3_url, response_code)\<close>.
  \<open>process_single_image_try\<close> is the body of its \<open>try\<close>; the \<open>except Exception\<close>
  clause turns whatever it raises into the error tuple.
\<close>

type_synonym outcome = "string \<times> string \<times> string \<times> int"

definition process_single_image_try ::
  "config \<Rightarrow> env \<Rightarrow> event list \<Rightarrow> string \<Rightarrow> (pyexn + outcome) \<times> event list"
where
  "process_single_image_try cfg e w url =
     (case generate_s3_key e url of
        Inl x \<Rightarrow> (Inl x, w)
      | Inr s3_key \<Rightarrow>
          (case check_s3_object_exists_and_accessible cfg e w s3_key of
             (Inl x, w1) \<Rightarrow> (Inl x, w1)
           | (Inr (needs_upload, status_code, check_status, actual_s3_key), w1) \<Rightarrow>
               if \<not> needs_upload then
                 (Inr (actual_s3_key, ''EXISTS_OK'', get_s3_url cfg actual_s3_key, status_code),
                  w1)
               else
                 (let upload_s3_key = actual_s3_key;
                      upload_s3_url = get_s3_url cfg upload_s3_key
                  in if dry_run cfg then
                       (Inr (upload_s3_key, ''WOULD_UPLOAD_'' @ check_status, upload_s3_url,
                             status_code), w1)
                     else
                       (let debug_filename =
                              (if debug_save cfg then Some (basename upload_s3_key) else None)
                        in case process_image_from_url cfg e w1 url debug_filename of
                             (Inl x, w2) \<Rightarrow> (Inl x, w2)
                           | (Inr image_buffer, w2) \<Rightarrow>
                               (case upload_to_s3 cfg e w2 image_buffer upload_s3_key of
                                  (Inl x, w3) \<Rightarrow> (Inl x, w3)
                                | (Inr upload_result, w3) \<Rightarrow>
                                    (case check_s3_object_exists_and_accessible cfg e w3
                                            upload_s3_key of
                                       (Inl x, w4) \<Rightarrow> (Inl x, w4)
                                     | (Inr (verify_needs_upload, verify_status_code,
                                             verify_status, verify_actual_key), w4) \<Rightarrow>
                                         if \<not> verify_needs_upload \<and> verify_status_code = 200
                                         then
                                           (Inr (upload_s3_key, ''UPLOADED_OK'', upload_s3_url,
                                                 verify_status_code), w4)
                                         else
                                           (Inr (upload_s3_key,
                                                 ''UPLOADED_VERIFY_FAIL_'' @
                                                 str_int verify_status_code,
                                                 upload_s3_url, verify_status_code), w4)))))))"

definition process_single_image ::
  "config \<Rightarrow> env \<Rightarrow> event list \<Rightarrow> string \<Rightarrow> outcome \<times> event list"
where
  "process_single_image cfg e w url =
     (case process_single_image_try cfg e w url of
        (Inl x, w') \<Rightarrow> (([], ''ERROR: '' @ exn_str x, [], 0), w')
      | (Inr out, w') \<Rightarrow> (out, w'))"

text \<open>
  The loop of \<open>main\<close> over the rows of the table. A cell of the URL column is a string
  or missing (\<open>pd.isna\<close>). Each row gets the four result columns written; the counters
  are the four local variables of \<open>main\<close>. \<open>process_single_image\<close> catches every
  exception of its body, so the \<open>except\<close> clause of the loop has nothing to catch in
  this model.
\<close>

datatype cell = NaN | Str string

definition placeholders :: "string list" where
  "placeholders = [''PENDING'', ''N/A'', ''NA'', ''NULL'', []]"

fun is_placeholder :: "cell \<Rightarrow> bool" where
  "is_placeholder NaN = True"
| "is_placeholder (Str url) = (str_upper (str_strip url) \<in> set placeholders)"

record counters =
  uploaded_count :: nat
  exists_count :: nat
  reupload_count :: nat
  error_count :: nat

definition count_status :: "string \<Rightarrow> counters \<Rightarrow> counters" where
  "count_status status c =
     (if startswith status ''UPLOADED'' \<or> startswith status ''WOULD_UPLOAD'' then
        (if startswith status ''WOULD_UPLOAD_EXISTS_403'' \<or>
            (startswith status ''UPLOADED'' \<and> str_contains status ''403'')
         then c\<lparr>reupload_count := reupload_count c + 1\<rparr>
         else c\<lparr>uploaded_count := uploaded_count c + 1\<rparr>)
      else if status = ''EXISTS_OK'' then c\<lparr>exists_count := exists_count c + 1\<rparr>
      else c\<lparr>error_count := error_count c + 1\<rparr>)"

record row_result =
  S3_Key :: string
  Processing_Status :: string
  HTTP_Response_Code :: int
  result_column :: string

fun process_row ::
  "config \<Rightarrow> env \<Rightarrow> cell \<Rightarrow> event list \<Rightarrow> counters \<Rightarrow> row_result \<times> event list \<times> counters"
where
  "process_row cfg e url w c =
     (if is_placeholder url then
        (\<lparr>S3_Key = [], Processing_Status = ''SKIPPED_INVALID_URL'', HTTP_Response_Code = 0,
          result_column = []\<rparr>, w, c\<lparr>error_count := error_count c + 1\<rparr>)
      else
        (case url of
           Str u \<Rightarrow>
             (case process_single_image cfg e w u of
                ((s3_key, status, s3_url, response_code), w') \<Rightarrow>
                  (\<lparr>S3_Key = s3_key, Processing_Status = status,
                    HTTP_Response_Code = response_code, result_column = s3_url\<rparr>,
                   w', count_status status c))
         | NaN \<Rightarrow>
             (\<lparr>S3_Key = [], Processing_Status = ''SKIPPED_INVALID_URL'', HTTP_Response_Code = 0,
               result_column = []\<rparr>, w, c\<lparr>error_count := error_count c + 1\<rparr>)))"

fun process_rows ::
  "config \<Rightarrow> env \<Rightarrow> cell list \<Rightarrow> event list \<Rightarrow> counters \<Rightarrow>
   row_result list \<times> event list \<times> counters"
where
  "process_rows cfg e [] w c = ([], w, c)"
| "process_rows cfg e (url # rows) w c =
     (case process_row cfg e url w c of
        (r, w1, c1) \<Rightarrow>
          (case process_rows cfg e rows w1 c1 of
             (rs, w2, c2) \<Rightarrow> (r # rs, w2, c2)))"

definition zero_counters :: counters where
  "zero_counters =
     \<lparr>uploaded_count = 0, exists_count = 0, reupload_count = 0, error_count = 0\<rparr>"

definition main_loop ::
  "config \<Rightarrow> env \<Rightarrow> cell list \<Rightarrow> event list \<Rightarrow> row_result list \<times> event list \<times> counters"
where
  "main_loop cfg e rows w = process_rows cfg e rows w zero_counters"

section \<open>Vocabulary of the statements\<close>

text \<open>
  The calls of the probe (\<open>head_object\<close> and \<open>requests.head\<close>) against the calls that
  move an image (download, Pillow pipeline, upload).
\<close>

fun is_probe_event :: "event \<Rightarrow> bool" where
  "is_probe_event (HeadObject b k) = True"
| "is_probe_event (RequestsHead u) = True"
| "is_probe_event (FetchBytes u) = False"
| "is_probe_event (Normalize c tw th d) = False"
| "is_probe_event (UploadFileobj buf b k) = False"

text \<open>The answer of \<open>head_object\<close> that makes the probe go on: a \<open>ClientError\<close> of code 404.\<close>

fun is_not_found :: "pyexn option \<Rightarrow> bool" where
  "is_not_found (Some (ClientError (Inr n) m)) = (n = 404)"
| "is_not_found r = False"

text \<open>
  \<open>all_not_found cfg e w ks\<close>: probed one after the other from the history \<open>w\<close>, every
  key of \<open>ks\<close> is answered not found. \<open>probes cfg ks\<close> are those calls.
\<close>

fun all_not_found :: "config \<Rightarrow> env \<Rightarrow> event list \<Rightarrow> string list \<Rightarrow> bool" where
  "all_not_found cfg e w [] = True"
| "all_not_found cfg e w (k # ks) =
     (is_not_found (head_object e w (bucket_name cfg) k) \<and>
      all_not_found cfg e (w @ [HeadObject (bucket_name cfg) k]) ks)"

definition probes :: "config \<Rightarrow> string list \<Rightarrow> event list" where
  "probes cfg ks = map (HeadObject (bucket_name cfg)) ks"

text \<open>The sum of the four counters of \<open>main\<close>.\<close>

definition counter_sum :: "counters \<Rightarrow> nat" where
  "counter_sum c = uploaded_count c + exists_count c + reupload_count c + error_count c"

section \<open>Example stores\<close>

text \<open>
  \<open>store_env path present status\<close> is a world in which \<open>urlparse\<close> finds the path
  \<open>path\<close>, the bucket holds the keys \<open>present\<close> and every key uploaded so far, the
  public endpoint answers \<open>status\<close> as long as only probe calls have been made and 200
  once an image has been moved, and download, Pillow pipeline and upload succeed.
\<close>

fun uploaded :: "event list \<Rightarrow> string \<Rightarrow> bool" where
  "uploaded [] k = False"
| "uploaded (UploadFileobj buf b k' # w) k = (k' = k \<or> uploaded w k)"
| "uploaded (HeadObject b k' # w) k = uploaded w k"
| "uploaded (RequestsHead u # w) k = uploaded w k"
| "uploaded (FetchBytes u # w) k = uploaded w k"
| "uploaded (Normalize c tw th d # w) k = uploaded w k"

definition store_env :: "string \<Rightarrow> string list \<Rightarrow> int \<Rightarrow> env" where
  "store_env path present status =
     \<lparr>urlparse_path = (\<lambda>url. Inr path),
      head_object =
        (\<lambda>w b k. if k \<in> set present \<or> uploaded w k then None
                 else Some (ClientError (Inr 404) ''Not Found'')),
      requests_head =
        (\<lambda>w u. StatusCode (if list_all is_probe_event w then status else 200)),
      fetch_bytes = (\<lambda>w u. Inr ''png-bytes''),
      normalize = (\<lambda>w c tw th d. Inr ''jpeg-bytes''),
      upload_fileobj = (\<lambda>w buf b k. None)\<rparr>"

definition example_config :: config where
  "example_config =
     \<lparr>input_csv = ''in.csv'', output_csv = ''out.csv'', bucket_name = ''bucket'',
      aws_region = ''ap-south-1'', target_width = 1200, target_height = 800,
      dry_run = True, debug_save = False, debug_dir = ''debug_images'',
      test_mode = False, test_rows = 5\<rparr>"

definition live_config :: config where
  "live_config = example_config\<lparr>dry_run := False\<rparr>"

text \<open>
  Worlds in which one step fails: \<open>urlparse\<close> rejects the URL, the error code of
  \<open>head_object\<close> is not a number, the download of one URL fails, the upload is refused.
\<close>

definition unparsable :: "env \<Rightarrow> env" where
  "unparsable e = e\<lparr>urlparse_path := (\<lambda>url. Inl (ValueError ''Invalid IPv6 URL''))\<rparr>"

definition odd_error_code :: "env \<Rightarrow> env" where
  "odd_error_code e =
     e\<lparr>head_object :=
         (\<lambda>w b k. Some (ClientError (Inl ''invalid literal for int() with base 10'')
                          ''An error occurred (NoSuchBucket)''))\<rparr>"

definition download_fails :: "string \<Rightarrow> env \<Rightarrow> env" where
  "download_fails bad e =
     e\<lparr>fetch_bytes :=
         (\<lambda>w url. if url = bad then Inl (RequestException ''404 Client Error: Not Found'')
                   else fetch_bytes e w url)\<rparr>"

definition upload_denied :: "env \<Rightarrow> env" where
  "upload_denied e = e\<lparr>upload_fileobj := (\<lambda>w buf b k. Some (OtherException ''Access Denied''))\<rparr>"

section \<open>Key derivation\<close>

lemma splitext_loop_cases:
  "splitext_loop p f d = (p, []) \<or> splitext_loop p f d = (take (nat d) p, drop (nat d) p)"
proof (induction p f d rule: splitext_loop.induct)
  case (1 p f d)
  then show ?case by (subst (1 2) splitext_loop.simps) auto
qed

lemma splitext_cases:
  "splitext p = (p, []) \<or>
   (\<exists>d. str_rfind p CHR ''/'' < d \<and> splitext p = (take (nat d) p, drop (nat d) p))"
  using splitext_loop_cases [of p "str_rfind p CHR ''/'' + 1" "str_rfind p CHR ''.''"]
  by (auto simp: splitext_def Let_def)

lemma splitext_join: "fst (splitext p) @ snd (splitext p) = p"
  using splitext_cases [of p] by auto

lemma str_rfind_ge: "- 1 \<le> str_rfind s x"
  by (induction s) (auto simp: Let_def)

lemma str_rfind_prefix:
  "startswith p (a @ [x]) \<Longrightarrow> int (length a) \<le> str_rfind p x"
proof (induction a arbitrary: p)
  case Nil
  then show ?case using str_rfind_ge [of "tl p" x] by (cases p) (auto simp: Let_def)
next
  case (Cons b bs)
  then obtain c cs where p: "p = c # cs" by (cases p) auto
  with Cons.prems have "startswith cs (bs @ [x])" by simp
  from Cons.IH [OF this] p show ?case by (auto simp: Let_def)
qed

lemma startswith_take:
  "startswith p q \<Longrightarrow> length q \<le> n \<Longrightarrow> startswith (take n p) q"
proof (induction p q arbitrary: n rule: startswith.induct)
  case (3 c cs q qs)
  then show ?case by (cases n) auto
qed auto

lemma startswith_append: "startswith p q \<Longrightarrow> \<exists>r. p = q @ r"
  by (induction p q rule: startswith.induct) auto

lemma anchor_base:
  assumes "startswith p ''/wp-content/''"
  shows "startswith (fst (splitext p)) ''/wp-content/''"
proof -
  have "startswith p (''/wp-content'' @ [CHR ''/''])" using assms by simp
  from str_rfind_prefix [OF this] have ge: "11 \<le> str_rfind p CHR ''/''" by simp
  from splitext_cases [of p] show ?thesis
  proof
    assume "splitext p = (p, [])"
    with assms show ?thesis by simp
  next
    assume "\<exists>d. str_rfind p CHR ''/'' < d \<and> splitext p = (take (nat d) p, drop (nat d) p)"
    then obtain d where d: "str_rfind p CHR ''/'' < d"
      and s: "splitext p = (take (nat d) p, drop (nat d) p)" by blast
    have "length ''/wp-content/'' \<le> nat d" using ge d by simp
    from startswith_take [OF assms this] s show ?thesis by simp
  qed
qed

lemma str_find_ge: "- 1 \<le> str_find s sub"
  by (induction s) (auto simp: Let_def)

lemma str_find_startswith:
  "str_find s sub \<noteq> - 1 \<Longrightarrow> startswith (drop (nat (str_find s sub)) s) sub"
proof (induction s)
  case Nil
  then show ?case by (auto split: if_splits)
next
  case (Cons c cs)
  show ?case
  proof (cases "startswith (c # cs) sub")
    case True
    then show ?thesis by simp
  next
    case False
    with Cons.prems have ne: "str_find cs sub \<noteq> - 1" by (auto simp: Let_def split: if_splits)
    have ge: "0 \<le> str_find cs sub" using str_find_ge [of cs sub] ne by linarith
    have "nat (str_find cs sub + 1) = Suc (nat (str_find cs sub))" using ge by linarith
    with False ne Cons.IH show ?thesis by (simp add: Let_def)
  qed
qed

text \<open>
  Claim C2 (as amended). For every URL that contains \<open>/wp-content/\<close>, the derived key is
  the substring from the first occurrence of that anchor to the end of the URL, with the
  extension that \<open>os.path.splitext\<close> finds removed, the leading slash stripped and
  exactly one \<open>.jpg\<close> appended. The substring starts with the anchor, so the key
  starts with \<open>wp-content/\<close>: for \<open>https://site/x/wp-content/uploads/img.PNG\<close> it is
  \<open>wp-content/uploads/img.jpg\<close>, not \<open>uploads/img.jpg\<close>.
\<close>

theorem generate_s3_key_anchor:
  assumes "str_contains url ''/wp-content/''"
  shows "generate_s3_key e url =
           Inr (lstrip_slash (fst (splitext (drop (nat (str_find url ''/wp-content/'')) url))) @
                ''.jpg'')
         \<and> startswith (drop (nat (str_find url ''/wp-content/'')) url) ''/wp-content/''
         \<and> (\<exists>rest. fst (splitext (drop (nat (str_find url ''/wp-content/'')) url)) =
                     ''/wp-content/'' @ rest
                   \<and> generate_s3_key e url = Inr (''wp-content/'' @ rest @ ''.jpg''))
         \<and> generate_s3_key e ''https://site/x/wp-content/uploads/img.PNG'' =
             Inr ''wp-content/uploads/img.jpg''"
proof -
  let ?p = "drop (nat (str_find url ''/wp-content/'')) url"
  from assms have ne: "str_find url ''/wp-content/'' \<noteq> - 1" by (simp add: str_contains_def)
  have g: "generate_s3_key e url = Inr (lstrip_slash (fst (splitext ?p)) @ ''.jpg'')"
    using ne by (simp add: generate_s3_key_def Let_def)
  have sw: "startswith ?p ''/wp-content/''" using str_find_startswith [OF ne] .
  from startswith_append [OF anchor_base [OF sw]] obtain rest where
    r: "fst (splitext ?p) = ''/wp-content/'' @ rest" by blast
  have "lstrip_slash (fst (splitext ?p)) = ''wp-content/'' @ rest"
    by (simp add: r lstrip_slash_def)
  with g r have ex: "\<exists>rest. fst (splitext ?p) = ''/wp-content/'' @ rest
      \<and> generate_s3_key e url = Inr (''wp-content/'' @ rest @ ''.jpg'')" by auto
  have c: "generate_s3_key e ''https://site/x/wp-content/uploads/img.PNG'' =
             Inr ''wp-content/uploads/img.jpg''" by code_simp
  from g sw ex c show ?thesis by blast
qed

theorem generate_s3_key_anchor_witness:
  "str_contains ''https://cdn.example/wp-content/2024/05/cake.v2.webp'' ''/wp-content/''
   \<and> generate_s3_key (store_env ''/unused'' [] 404)
        ''https://cdn.example/wp-content/2024/05/cake.v2.webp'' =
      Inr ''wp-content/2024/05/cake.v2.jpg''"
proof -
  have h: "str_contains ''https://cdn.example/wp-content/2024/05/cake.v2.webp'' ''/wp-content/''"
    by code_simp
  have v: "lstrip_slash (fst (splitext (drop (nat (str_find
             ''https://cdn.example/wp-content/2024/05/cake.v2.webp'' ''/wp-content/''))
             ''https://cdn.example/wp-content/2024/05/cake.v2.webp''))) @ ''.jpg'' =
           ''wp-content/2024/05/cake.v2.jpg''"
    by code_simp
  from generate_s3_key_anchor [OF h, of "store_env ''/unused'' [] 404"] h v show ?thesis
    by simp
qed

theorem generate_s3_key_anchor_counterexample:
  "generate_s3_key (store_env ''/x/wp-content/uploads/img.PNG'' [] 404)
     ''https://site/x/wp-content/uploads/img.PNG'' = Inr ''wp-content/uploads/img.jpg''
   \<and> generate_s3_key (store_env ''/x/wp-content/uploads/img.PNG'' [] 404)
     ''https://site/x/wp-content/uploads/img.PNG'' \<noteq> Inr ''uploads/img.jpg''"
  by code_simp

text \<open>
  Claim C7. For every URL without the anchor \<open>/wp-content/\<close> from which a key is derived
  at all (the URL is not blank and \<open>urlparse\<close> accepts it), the key is the path
  component of the URL with its leading slashes stripped; when the extension of that
  path, lower-cased, is one of \<open>.png .jpeg .jpg .gif .webp\<close>, the extension alone is
  replaced by \<open>.jpg\<close> (the path is its base followed by its extension, and the key is
  the same base followed by \<open>.jpg\<close>), and otherwise the path is the key unchanged. A
  blank URL raises \<open>ValueError\<close>, and an error of \<open>urlparse\<close> is passed on.
\<close>

theorem generate_s3_key_fallback:
  assumes "\<not> str_contains url ''/wp-content/''"
  shows "generate_s3_key e url =
           (if url = [] \<or> str_strip url = [] then Inl (ValueError ''Empty or invalid URL'')
            else (case urlparse_path e url of
                    Inl x \<Rightarrow> Inl x
                  | Inr p \<Rightarrow>
                      Inr (if str_lower (snd (splitext (lstrip_slash p))) \<in> set image_extensions
                           then fst (splitext (lstrip_slash p)) @ ''.jpg''
                           else lstrip_slash p)))
         \<and> (\<forall>p. fst (splitext (lstrip_slash p)) @ snd (splitext (lstrip_slash p)) =
                  lstrip_slash p)
         \<and> image_extensions = [''.png'', ''.jpeg'', ''.jpg'', ''.gif'', ''.webp'']"
proof -
  from assms have "str_find url ''/wp-content/'' = - 1" by (simp add: str_contains_def)
  then have "generate_s3_key e url =
           (if url = [] \<or> str_strip url = [] then Inl (ValueError ''Empty or invalid URL'')
            else (case urlparse_path e url of
                    Inl x \<Rightarrow> Inl x
                  | Inr p \<Rightarrow>
                      Inr (if str_lower (snd (splitext (lstrip_slash p))) \<in> set image_extensions
                           then fst (splitext (lstrip_slash p)) @ ''.jpg''
                           else lstrip_slash p)))"
    by (simp add: generate_s3_key_def extract_s3_path_def Let_def split: sum.splits)
  then show ?thesis by (simp add: splitext_join image_extensions_def)
qed

theorem generate_s3_key_fallback_witness:
  "\<not> str_contains ''https://shop.example/media/2024/Cake.v2.PNG'' ''/wp-content/''
   \<and> generate_s3_key (store_env ''/media/2024/Cake.v2.PNG'' [] 404)
        ''https://shop.example/media/2024/Cake.v2.PNG'' = Inr ''media/2024/Cake.v2.jpg''
   \<and> generate_s3_key (store_env ''/docs/menu.pdf'' [] 404)
        ''https://shop.example/docs/menu.pdf'' = Inr ''docs/menu.pdf''"
proof -
  have h1: "\<not> str_contains ''https://shop.example/media/2024/Cake.v2.PNG'' ''/wp-content/''"
    by code_simp
  have h2: "\<not> str_contains ''https://shop.example/docs/menu.pdf'' ''/wp-content/''"
    by code_simp
  have v1: "(if ''https://shop.example/media/2024/Cake.v2.PNG'' = [] \<or>
                str_strip ''https://shop.example/media/2024/Cake.v2.PNG'' = []
             then Inl (ValueError ''Empty or invalid URL'')
             else (case urlparse_path (store_env ''/media/2024/Cake.v2.PNG'' [] 404)
                          ''https://shop.example/media/2024/Cake.v2.PNG'' of
                     Inl x \<Rightarrow> Inl x
                   | Inr p \<Rightarrow>
                       Inr (if str_lower (snd (splitext (lstrip_slash p))) \<in> set image_extensions
                            then fst (splitext (lstrip_slash p)) @ ''.jpg''
                            else lstrip_slash p))) = Inr ''media/2024/Cake.v2.jpg''"
    by code_simp
  have v2: "(if ''https://shop.example/docs/menu.pdf'' = [] \<or>
                str_strip ''https://shop.example/docs/menu.pdf'' = []
             then Inl (ValueError ''Empty or invalid URL'')
             else (case urlparse_path (store_env ''/docs/menu.pdf'' [] 404)
                          ''https://shop.example/docs/menu.pdf'' of
                     Inl x \<Rightarrow> Inl x
                   | Inr p \<Rightarrow>
                       Inr (if str_lower (snd (splitext (lstrip_slash p))) \<in> set image_extensions
                            then fst (splitext (lstrip_slash p)) @ ''.jpg''
                            else lstrip_slash p))) = Inr ''docs/menu.pdf''"
    by code_simp
  from generate_s3_key_fallback [OF h1, of "store_env ''/media/2024/Cake.v2.PNG'' [] 404"]
       generate_s3_key_fallback [OF h2, of "store_env ''/docs/menu.pdf'' [] 404"]
       h1 v1 v2
  show ?thesis by simp
qed

section \<open>Encoding variations of a key\<close>

text \<open>
  Claim C6. The variations probed for a key are, in this order, the key as given, its
  percent-decoded form and its percent-encoded form with \<open>/\<close> left unescaped, each
  kept only where it has not occurred before: the original key is the first element
  and no element occurs twice.
\<close>

theorem unique_variations_order:
  "s3_key_variations key = [key, unquote key, quote key]
   \<and> unique_variations key =
       key # (if unquote key = key then [] else [unquote key]) @
             (if quote key = key \<or> quote key = unquote key then [] else [quote key])
   \<and> hd (unique_variations key) = key
   \<and> distinct (unique_variations key)
   \<and> set (unique_variations key) = set (s3_key_variations key)"
  by (auto simp: unique_variations_def s3_key_variations_def)

theorem unique_variations_order_witness:
  "unique_variations ''a%20b.jpg'' = [''a%20b.jpg'', ''a b.jpg'', ''a%2520b.jpg'']
   \<and> unique_variations ''img/photo.jpg'' = [''img/photo.jpg'']
   \<and> distinct (unique_variations ''a%20b.jpg'')"
proof -
  have u: "unquote ''a%20b.jpg'' = ''a b.jpg''" by code_simp
  have q: "quote ''a%20b.jpg'' = ''a%2520b.jpg''" by code_simp
  have u': "unquote ''img/photo.jpg'' = ''img/photo.jpg''" by code_simp
  have q': "quote ''img/photo.jpg'' = ''img/photo.jpg''" by code_simp
  from unique_variations_order [of "''a%20b.jpg''"] unique_variations_order [of "''img/photo.jpg''"]
  show ?thesis by (simp add: u q u' q')
qed

section \<open>The existence probe\<close>

lemma str_int_403: "str_int 403 = ''403''"
  by code_simp

lemma is_not_found_cases:
  "is_not_found r \<Longrightarrow> \<exists>m. r = Some (ClientError (Inr 404) m)"
  by (induction r rule: is_not_found.induct) auto

lemma check_loop_found:
  assumes "head_object e w (bucket_name cfg) v = None"
  shows "check_loop cfg e key (v # post) w =
           (Inr (case requests_head e (w @ [HeadObject (bucket_name cfg) v]) (get_s3_url cfg v) of
                   StatusCode s \<Rightarrow>
                     if s = 200 then (False, 200, ''EXISTS_ACCESSIBLE'', v)
                     else (True, s, ''EXISTS_'' @ str_int s @ ''_REUPLOAD'', v)
                 | RaisedRequestException m \<Rightarrow> (True, 0, ''ACCESS_TEST_ERROR'', v)
                 | RaisedException m \<Rightarrow> (True, 0, ''UNKNOWN_ERROR'', v)),
            w @ [HeadObject (bucket_name cfg) v, RequestsHead (get_s3_url cfg v)])"
  using assms
  by (simp add: Let_def get_s3_url_def str_int_403 split: head_reply.splits)

lemma check_loop_skip:
  assumes "all_not_found cfg e w pre"
  shows "check_loop cfg e key (pre @ rest) w = check_loop cfg e key rest (w @ probes cfg pre)"
  using assms
proof (induction pre arbitrary: w)
  case Nil
  then show ?case by (simp add: probes_def)
next
  case (Cons k ks)
  from Cons.prems obtain m where
    h: "head_object e w (bucket_name cfg) k = Some (ClientError (Inr 404) m)"
    and rest: "all_not_found cfg e (w @ [HeadObject (bucket_name cfg) k]) ks"
    using is_not_found_cases by auto
  show ?case using h Cons.IH [OF rest] by (simp add: probes_def)
qed

lemma check_loop_events:
  "check_loop cfg e key vs w = (r, w') \<Longrightarrow>
     \<exists>evs. w' = w @ evs \<and> list_all is_probe_event evs"
proof (induction vs arbitrary: w)
  case Nil
  then show ?case by auto
next
  case (Cons v vs)
  show ?case
  proof (cases "is_not_found (head_object e w (bucket_name cfg) v)")
    case True
    then obtain m where h: "head_object e w (bucket_name cfg) v = Some (ClientError (Inr 404) m)"
      using is_not_found_cases by auto
    with Cons.prems have "check_loop cfg e key vs (w @ [HeadObject (bucket_name cfg) v]) = (r, w')"
      by simp
    from Cons.IH [OF this] show ?thesis by auto
  next
    case False
    with Cons.prems show ?thesis
      by (auto simp: Let_def split: option.splits pyexn.splits sum.splits head_reply.splits if_splits)
  qed
qed

lemma check_loop_accessible:
  "check_loop cfg e key vs w = (Inr (False, sc, st, ak), w') \<Longrightarrow> sc = 200"
proof (induction vs arbitrary: w)
  case Nil
  then show ?case by auto
next
  case (Cons v vs)
  show ?case
  proof (cases "is_not_found (head_object e w (bucket_name cfg) v)")
    case True
    then obtain m where h: "head_object e w (bucket_name cfg) v = Some (ClientError (Inr 404) m)"
      using is_not_found_cases by auto
    with Cons.prems have
      "check_loop cfg e key vs (w @ [HeadObject (bucket_name cfg) v]) = (Inr (False, sc, st, ak), w')"
      by simp
    from Cons.IH [OF this] show ?thesis .
  next
    case False
    with Cons.prems show ?thesis
      by (auto simp: Let_def split: option.splits pyexn.splits sum.splits head_reply.splits if_splits)
  qed
qed

lemma check_events:
  "check_s3_object_exists_and_accessible cfg e w key = (r, w') \<Longrightarrow>
     \<exists>evs. w' = w @ evs \<and> list_all is_probe_event evs"
  unfolding check_s3_object_exists_and_accessible_def by (rule check_loop_events)

lemma check_accessible:
  "check_s3_object_exists_and_accessible cfg e w key = (Inr (False, sc, st, ak), w') \<Longrightarrow> sc = 200"
  unfolding check_s3_object_exists_and_accessible_def by (rule check_loop_accessible)

lemma unique_variations_distinct: "distinct (unique_variations key)"
  by (auto simp: unique_variations_def s3_key_variations_def)

text \<open>
  Claim C1. Let \<open>v\<close> be a variation of the key such that every variation before it is
  answered not found and \<open>head_object\<close> succeeds on \<open>v\<close>. Then the probe returns at
  \<open>v\<close>, with \<open>v\<close> as the matched key: status 200 of the public check gives
  \<open>(False, 200, EXISTS_ACCESSIBLE)\<close>, any other status \<open>s\<close> (403 included) gives
  \<open>(True, s, EXISTS_s_REUPLOAD)\<close>, and a public check that raises gives a result with
  \<open>needs_upload\<close> and status 0. The calls made are the \<open>head_object\<close> calls on the
  variations up to \<open>v\<close> and the one public check of \<open>v\<close>: no variation after \<open>v\<close> is
  probed.
\<close>

theorem probe_stops_at_found_variant:
  assumes vs: "unique_variations key = pre @ v # post"
    and nf: "all_not_found cfg e w pre"
    and found: "head_object e (w @ probes cfg pre) (bucket_name cfg) v = None"
  shows "check_s3_object_exists_and_accessible cfg e w key =
           (Inr (case requests_head e (w @ probes cfg pre @ [HeadObject (bucket_name cfg) v])
                        (get_s3_url cfg v) of
                   StatusCode s \<Rightarrow>
                     if s = 200 then (False, 200, ''EXISTS_ACCESSIBLE'', v)
                     else (True, s, ''EXISTS_'' @ str_int s @ ''_REUPLOAD'', v)
                 | RaisedRequestException m \<Rightarrow> (True, 0, ''ACCESS_TEST_ERROR'', v)
                 | RaisedException m \<Rightarrow> (True, 0, ''UNKNOWN_ERROR'', v)),
            w @ probes cfg pre @
              [HeadObject (bucket_name cfg) v, RequestsHead (get_s3_url cfg v)])
         \<and> list_all
             (\<lambda>k. HeadObject (bucket_name cfg) k \<notin>
                    set (probes cfg pre @
                         [HeadObject (bucket_name cfg) v, RequestsHead (get_s3_url cfg v)]))
             post"
proof -
  have "check_s3_object_exists_and_accessible cfg e w key =
          check_loop cfg e key (v # post) (w @ probes cfg pre)"
    by (simp del: check_loop.simps add: check_s3_object_exists_and_accessible_def vs check_loop_skip [OF nf])
  then have run: "check_s3_object_exists_and_accessible cfg e w key =
           (Inr (case requests_head e (w @ probes cfg pre @ [HeadObject (bucket_name cfg) v])
                        (get_s3_url cfg v) of
                   StatusCode s \<Rightarrow>
                     if s = 200 then (False, 200, ''EXISTS_ACCESSIBLE'', v)
                     else (True, s, ''EXISTS_'' @ str_int s @ ''_REUPLOAD'', v)
                 | RaisedRequestException m \<Rightarrow> (True, 0, ''ACCESS_TEST_ERROR'', v)
                 | RaisedException m \<Rightarrow> (True, 0, ''UNKNOWN_ERROR'', v)),
            w @ probes cfg pre @
              [HeadObject (bucket_name cfg) v, RequestsHead (get_s3_url cfg v)])"
    by (simp del: check_loop.simps add: check_loop_found [OF found])
  have "distinct (pre @ v # post)" using unique_variations_distinct [of key] vs by simp
  then have later: "list_all
             (\<lambda>k. HeadObject (bucket_name cfg) k \<notin>
                    set (probes cfg pre @
                         [HeadObject (bucket_name cfg) v, RequestsHead (get_s3_url cfg v)]))
             post"
    by (auto simp: list_all_iff probes_def)
  from run later show ?thesis by blast
qed

theorem probe_stops_at_found_variant_witness:
  "check_s3_object_exists_and_accessible example_config
     (store_env ''/x'' [''a b.jpg'', ''a%2520b.jpg''] 403) [] ''a%20b.jpg'' =
     (Inr (True, 403, ''EXISTS_403_REUPLOAD'', ''a b.jpg''),
      [HeadObject ''bucket'' ''a%20b.jpg'', HeadObject ''bucket'' ''a b.jpg'',
       RequestsHead ''https://bucket.s3.ap-south-1.amazonaws.com/a%20b.jpg''])
   \<and> check_s3_object_exists_and_accessible example_config
     (store_env ''/x'' [''a b.jpg'', ''a%2520b.jpg''] 200) [] ''a%20b.jpg'' =
     (Inr (False, 200, ''EXISTS_ACCESSIBLE'', ''a b.jpg''),
      [HeadObject ''bucket'' ''a%20b.jpg'', HeadObject ''bucket'' ''a b.jpg'',
       RequestsHead ''https://bucket.s3.ap-south-1.amazonaws.com/a%20b.jpg''])"
proof -
  have vs: "unique_variations ''a%20b.jpg'' = [''a%20b.jpg''] @ ''a b.jpg'' # [''a%2520b.jpg'']"
    by code_simp
  have b: "bucket_name example_config = ''bucket''" by (simp add: example_config_def)
  have u: "get_s3_url example_config ''a b.jpg'' =
             ''https://bucket.s3.ap-south-1.amazonaws.com/a%20b.jpg''" by code_simp
  have s: "str_int 403 = ''403''" by code_simp
  have nf: "all_not_found example_config (store_env ''/x'' [''a b.jpg'', ''a%2520b.jpg''] st) []
              [''a%20b.jpg'']" for st
    by (simp add: store_env_def b)
  have found: "head_object (store_env ''/x'' [''a b.jpg'', ''a%2520b.jpg''] st)
                 ([] @ probes example_config [''a%20b.jpg'']) (bucket_name example_config)
                 ''a b.jpg'' = None" for st
    by (simp add: store_env_def)
  from probe_stops_at_found_variant [OF vs nf found, of 403]
       probe_stops_at_found_variant [OF vs nf found, of 200]
  show ?thesis by (simp add: b u s probes_def store_env_def)
qed

section \<open>Public URLs\<close>

lemma hexval_hexdigit: "n < 16 \<Longrightarrow> hexval (hexdigit n) = Some n"
proof -
  assume "n < 16"
  then consider "n < 10" | "10 \<le> n \<and> n < 16" by linarith
  then show ?thesis
  proof cases
    case 1
    then show ?thesis by (simp add: hexval_def hexdigit_def Let_def)
  next
    case 2
    then show ?thesis by (simp add: hexval_def hexdigit_def Let_def)
  qed
qed

lemma of_char_less_256: "(of_char c :: nat) < 256"
  by (cases c) (simp add: of_char_def)

lemma percent_not_safe: "\<not> quote_safe CHR ''%''"
  by code_simp

lemma unquote_quote_char:
  "unquote_to_bytes (quote_char c @ rest) = c # unquote_to_bytes rest"
proof (cases "quote_safe c")
  case True
  then have "c \<noteq> CHR ''%''" using percent_not_safe by auto
  with True show ?thesis by (simp add: quote_char_def)
next
  case False
  let ?n = "of_char c :: nat"
  have hi: "?n div 16 < 16" using of_char_less_256 [of c] by presburger
  have lo: "?n mod 16 < 16" by simp
  have "char_of (16 * (?n div 16) + ?n mod 16) = c" by simp
  with False show ?thesis
    by (simp add: quote_char_def hexval_hexdigit [OF hi] hexval_hexdigit [OF lo])
qed

lemma unquote_to_bytes_quote: "unquote_to_bytes (quote s) = s"
proof (induction s)
  case Nil
  then show ?case by (simp add: quote_def)
next
  case (Cons c cs)
  have "quote (c # cs) = quote_char c @ quote cs" by (simp add: quote_def)
  with Cons show ?case by (simp add: unquote_quote_char)
qed

lemma quote_append: "quote (xs @ ys) = quote xs @ quote ys"
  by (simp add: quote_def)

lemma quote_percent: "quote ''%'' = ''%25''"
  by code_simp

lemma utf8_replace_ascii:
  "list_all (\<lambda>c. (of_char c :: nat) < 128) s \<Longrightarrow> utf8_replace s = s"
  by (induction s) (auto simp: Let_def)

lemma quote_no_percent:
  "CHR ''%'' \<notin> set (quote s) \<Longrightarrow> quote s = s"
  by (induction s) (auto simp: quote_def quote_char_def split: if_splits)

lemma unquote_quote_ascii:
  assumes "list_all (\<lambda>c. (of_char c :: nat) < 128) s"
  shows "unquote (quote s) = s"
proof (cases "CHR ''%'' \<in> set (quote s)")
  case True
  then show ?thesis by (simp add: unquote_def unquote_to_bytes_quote utf8_replace_ascii [OF assms])
next
  case False
  then have q: "quote s = s" by (rule quote_no_percent)
  with False have "CHR ''%'' \<notin> set s" by simp
  then show ?thesis by (simp add: q unquote_def)
qed

text \<open>
  Claim C9 (as amended). The public URL of a key is the fixed prefix
  \<open>https://{bucket}.s3.{region}.amazonaws.com/\<close> followed by the percent-encoding of the
  key with \<open>/\<close> unescaped, and the URL of the reachability check of a matched variation
  \<open>v\<close> is that same URL of \<open>v\<close>. A \<open>%\<close> of the variation is therefore written
  \<open>%25\<close>. Percent-decoding the path of that URL gives back \<open>v\<close>, the key under which
  \<open>head_object\<close> found the object (for every byte string with \<open>unquote_to_bytes\<close>, and
  with \<open>unquote\<close> for every ASCII key): the URL checked and recorded is the URL of the
  stored object.
\<close>

theorem public_url_encoding:
  "get_s3_url cfg k =
     ''https://'' @ bucket_name cfg @ ''.s3.'' @ aws_region cfg @ ''.amazonaws.com/'' @ quote k
   \<and> (all_not_found cfg e w pre \<and>
        head_object e (w @ probes cfg pre) (bucket_name cfg) v = None \<longrightarrow>
        snd (check_loop cfg e key (pre @ v # post) w) =
          w @ probes cfg pre @
            [HeadObject (bucket_name cfg) v, RequestsHead (get_s3_url cfg v)])
   \<and> quote (xs @ ''%'' @ ys) = quote xs @ ''%25'' @ quote ys
   \<and> unquote_to_bytes (quote v) = v
   \<and> (list_all (\<lambda>c. (of_char c :: nat) < 128) v \<longrightarrow> unquote (quote v) = v)"
proof -
  have a: "get_s3_url cfg k =
     ''https://'' @ bucket_name cfg @ ''.s3.'' @ aws_region cfg @ ''.amazonaws.com/'' @ quote k"
    by (simp add: get_s3_url_def)
  have b: "all_not_found cfg e w pre \<and>
        head_object e (w @ probes cfg pre) (bucket_name cfg) v = None \<longrightarrow>
        snd (check_loop cfg e key (pre @ v # post) w) =
          w @ probes cfg pre @
            [HeadObject (bucket_name cfg) v, RequestsHead (get_s3_url cfg v)]"
    by (simp del: check_loop.simps add: check_loop_skip check_loop_found)
  have c: "quote (xs @ ''%'' @ ys) = quote xs @ ''%25'' @ quote ys"
    by (simp only: quote_append quote_percent)
  from a b c unquote_to_bytes_quote [of v] unquote_quote_ascii [of v] show ?thesis by blast
qed

theorem public_url_encoding_witness:
  "get_s3_url example_config ''a%20b.jpg'' =
     ''https://bucket.s3.ap-south-1.amazonaws.com/a%2520b.jpg''
   \<and> snd (check_loop example_config (store_env ''/x'' [''a%20b.jpg''] 200) ''a b.jpg''
            [''a b.jpg'', ''a%20b.jpg''] []) =
       [HeadObject ''bucket'' ''a b.jpg'', HeadObject ''bucket'' ''a%20b.jpg'',
        RequestsHead ''https://bucket.s3.ap-south-1.amazonaws.com/a%2520b.jpg'']
   \<and> quote ''a%20b.jpg'' = ''a%2520b.jpg''
   \<and> unquote_to_bytes ''a%2520b.jpg'' = ''a%20b.jpg''
   \<and> unquote ''a%2520b.jpg'' = ''a%20b.jpg''"
proof -
  have b: "bucket_name example_config = ''bucket''" by (simp add: example_config_def)
  have q: "quote ''a%20b.jpg'' = ''a%2520b.jpg''" by code_simp
  have q2: "quote ''a'' = ''a''" by code_simp
  have q3: "quote ''20b.jpg'' = ''20b.jpg''" by code_simp
  have u: "get_s3_url example_config ''a%20b.jpg'' =
             ''https://bucket.s3.ap-south-1.amazonaws.com/a%2520b.jpg''" by code_simp
  have nf: "all_not_found example_config (store_env ''/x'' [''a%20b.jpg''] 200) [] [''a b.jpg'']"
    by (simp add: store_env_def b)
  have found: "head_object (store_env ''/x'' [''a%20b.jpg''] 200)
                 ([] @ probes example_config [''a b.jpg'']) (bucket_name example_config)
                 ''a%20b.jpg'' = None"
    by (simp add: store_env_def)
  have ascii: "list_all (\<lambda>c. (of_char c :: nat) < 128) ''a%20b.jpg''" by simp
  from public_url_encoding [where cfg = example_config and k = "''a%20b.jpg''" and key = "''a b.jpg''"
         and e = "store_env ''/x'' [''a%20b.jpg''] 200" and w = "[]" and pre = "[''a b.jpg'']"
         and v = "''a%20b.jpg''" and post = "[]" and xs = "''a''" and ys = "''20b.jpg''"]
       nf found ascii
  show ?thesis by (simp del: check_loop.simps add: b q q2 q3 u probes_def)
qed

theorem public_url_encoding_counterexample:
  "check_s3_object_exists_and_accessible example_config
     (store_env ''/x'' [''a%20b.jpg''] 200) [] ''a b.jpg'' =
     (Inr (False, 200, ''EXISTS_ACCESSIBLE'', ''a%20b.jpg''),
      [HeadObject ''bucket'' ''a b.jpg'', HeadObject ''bucket'' ''a%20b.jpg'',
       RequestsHead ''https://bucket.s3.ap-south-1.amazonaws.com/a%2520b.jpg''])
   \<and> quote ''a b.jpg'' = ''a%20b.jpg''
   \<and> get_s3_url example_config ''a%20b.jpg'' =
       ''https://bucket.s3.ap-south-1.amazonaws.com/'' @ ''a%2520b.jpg''
   \<and> unquote_to_bytes ''a%2520b.jpg'' = ''a%20b.jpg''
   \<and> unquote ''a%2520b.jpg'' = ''a%20b.jpg''"
  by code_simp

section \<open>The decision for one image\<close>

text \<open>
  Claim C3. When the key is derived and the probe reports the object accessible
  (\<open>needs_upload\<close> false), \<open>process_single_image\<close> returns the status \<open>EXISTS_OK\<close>
  with response code 200, and both the recorded key and the public URL are those of
  the key the probe matched, which may differ from the derived key. The calls it made
  are those of the probe alone: no download, no Pillow pipeline, no upload.
\<close>

theorem accessible_is_exists_ok:
  assumes gen: "generate_s3_key e url = Inr s3_key"
    and probe: "check_s3_object_exists_and_accessible cfg e w s3_key =
                  (Inr (False, sc, st, ak), w1)"
  shows "process_single_image cfg e w url =
           ((ak, ''EXISTS_OK'', get_s3_url cfg ak, 200), w1)
         \<and> (\<exists>evs. w1 = w @ evs \<and> list_all is_probe_event evs)"
proof -
  have "sc = 200" using check_accessible [OF probe] .
  then have "process_single_image cfg e w url =
           ((ak, ''EXISTS_OK'', get_s3_url cfg ak, 200), w1)"
    by (simp add: process_single_image_def process_single_image_try_def gen probe)
  with check_events [OF probe] show ?thesis by blast
qed

theorem accessible_is_exists_ok_witness:
  "generate_s3_key (store_env ''/img/a b.PNG'' [''img/a%20b.jpg''] 200)
     ''https://h/img/a b.PNG'' = Inr ''img/a b.jpg''
   \<and> check_s3_object_exists_and_accessible example_config
       (store_env ''/img/a b.PNG'' [''img/a%20b.jpg''] 200) [] ''img/a b.jpg'' =
       (Inr (False, 200, ''EXISTS_ACCESSIBLE'', ''img/a%20b.jpg''),
        [HeadObject ''bucket'' ''img/a b.jpg'', HeadObject ''bucket'' ''img/a%20b.jpg'',
         RequestsHead ''https://bucket.s3.ap-south-1.amazonaws.com/img/a%2520b.jpg''])
   \<and> process_single_image example_config
       (store_env ''/img/a b.PNG'' [''img/a%20b.jpg''] 200) [] ''https://h/img/a b.PNG'' =
       ((''img/a%20b.jpg'', ''EXISTS_OK'',
         ''https://bucket.s3.ap-south-1.amazonaws.com/img/a%2520b.jpg'', 200),
        [HeadObject ''bucket'' ''img/a b.jpg'', HeadObject ''bucket'' ''img/a%20b.jpg'',
         RequestsHead ''https://bucket.s3.ap-south-1.amazonaws.com/img/a%2520b.jpg''])"
proof -
  have gen: "generate_s3_key (store_env ''/img/a b.PNG'' [''img/a%20b.jpg''] 200)
     ''https://h/img/a b.PNG'' = Inr ''img/a b.jpg''" by code_simp
  have probe: "check_s3_object_exists_and_accessible example_config
       (store_env ''/img/a b.PNG'' [''img/a%20b.jpg''] 200) [] ''img/a b.jpg'' =
       (Inr (False, 200, ''EXISTS_ACCESSIBLE'', ''img/a%20b.jpg''),
        [HeadObject ''bucket'' ''img/a b.jpg'', HeadObject ''bucket'' ''img/a%20b.jpg'',
         RequestsHead ''https://bucket.s3.ap-south-1.amazonaws.com/img/a%2520b.jpg''])"
    by code_simp
  have u: "get_s3_url example_config ''img/a%20b.jpg'' =
             ''https://bucket.s3.ap-south-1.amazonaws.com/img/a%2520b.jpg''" by code_simp
  from accessible_is_exists_ok [OF gen probe] gen probe show ?thesis by (simp only: u)
qed

text \<open>
  Claim C4 (as amended). In live-upload mode, when the probe reports that an upload is
  needed and the download, the Pillow pipeline and the upload all succeed, the calls made
  after the first probe are one download, one pipeline run and one upload to the matched
  key, followed by the calls of a single second probe of that same key. If the second
  probe reports accessible with status 200 the status is \<open>UPLOADED_OK\<close>; on any other
  result it returns, the status is \<open>UPLOADED_VERIFY_FAIL_\<close> followed by its status
  code. When the download raises, as in the counterexample, nothing is uploaded, no
  second probe is made and the status is an \<open>ERROR:\<close> label.
\<close>

theorem upload_then_single_reprobe:
  assumes gen: "generate_s3_key e url = Inr s3_key"
    and probe: "check_s3_object_exists_and_accessible cfg e w s3_key =
                  (Inr (True, sc, st, ak), w1)"
    and live: "\<not> dry_run cfg"
    and dbg: "dbg = (if debug_save cfg \<and> basename ak \<noteq> []
                     then Some (path_join (debug_dir cfg) (basename ak)) else None)"
    and fetch: "fetch_bytes e w1 url = Inr content"
    and norm: "normalize e (w1 @ [FetchBytes url]) content (target_width cfg)
                 (target_height cfg) dbg = Inr buf"
    and moved: "moved = [FetchBytes url,
                         Normalize content (target_width cfg) (target_height cfg) dbg,
                         UploadFileobj buf (bucket_name cfg) ak]"
    and up: "upload_fileobj e (w1 @ butlast moved) buf (bucket_name cfg) ak = None"
    and verify: "check_s3_object_exists_and_accessible cfg e (w1 @ moved) ak =
                   (Inr (vn, vc, vs, vk), w4)"
  shows "process_single_image cfg e w url =
           ((ak,
             if \<not> vn \<and> vc = 200 then ''UPLOADED_OK''
             else ''UPLOADED_VERIFY_FAIL_'' @ str_int vc,
             get_s3_url cfg ak, vc), w4)
         \<and> (\<exists>evs1 evs2. w4 = w @ evs1 @ moved @ evs2 \<and>
               list_all is_probe_event evs1 \<and> list_all is_probe_event evs2)"
proof -
  let ?w2 = "w1 @ [FetchBytes url,
                   Normalize content (target_width cfg) (target_height cfg) dbg]"
  have img: "process_image_from_url cfg e w1 url
               (if debug_save cfg then Some (basename ak) else None) = (Inr buf, ?w2)"
    using fetch norm dbg by (auto simp: process_image_from_url_def Let_def)
  have up': "upload_fileobj e ?w2 buf (bucket_name cfg) ak = None"
    using up moved by simp
  have upl: "upload_to_s3 cfg e ?w2 buf ak = (Inr ''UPLOADED'', w1 @ moved)"
    using up' moved by (simp add: upload_to_s3_def Let_def)
  have run: "process_single_image cfg e w url =
           ((ak,
             if \<not> vn \<and> vc = 200 then ''UPLOADED_OK''
             else ''UPLOADED_VERIFY_FAIL_'' @ str_int vc,
             get_s3_url cfg ak, vc), w4)"
    by (simp add: process_single_image_def process_single_image_try_def gen probe live
        img upl verify Let_def)
  from check_events [OF probe] obtain evs1 where
    e1: "w1 = w @ evs1" "list_all is_probe_event evs1" by blast
  from check_events [OF verify] obtain evs2 where
    e2: "w4 = (w1 @ moved) @ evs2" "list_all is_probe_event evs2" by blast
  from e1 e2 have "w4 = w @ evs1 @ moved @ evs2" by simp
  with e1 e2 run show ?thesis by blast
qed

theorem upload_then_single_reprobe_witness:
  "process_single_image live_config (store_env ''/img/a b.PNG'' [] 404) []
     ''https://h/img/a b.PNG'' =
     ((''img/a b.jpg'', ''UPLOADED_OK'',
       ''https://bucket.s3.ap-south-1.amazonaws.com/img/a%20b.jpg'', 200),
      [HeadObject ''bucket'' ''img/a b.jpg'', HeadObject ''bucket'' ''img/a%20b.jpg'',
       FetchBytes ''https://h/img/a b.PNG'', Normalize ''png-bytes'' 1200 800 None,
       UploadFileobj ''jpeg-bytes'' ''bucket'' ''img/a b.jpg'',
       HeadObject ''bucket'' ''img/a b.jpg'',
       RequestsHead ''https://bucket.s3.ap-south-1.amazonaws.com/img/a%20b.jpg''])"
proof -
  let ?e = "store_env ''/img/a b.PNG'' [] 404"
  let ?w1 = "[HeadObject ''bucket'' ''img/a b.jpg'', HeadObject ''bucket'' ''img/a%20b.jpg'']"
  let ?moved = "[FetchBytes ''https://h/img/a b.PNG'',
                 Normalize ''png-bytes'' (target_width live_config) (target_height live_config) None,
                 UploadFileobj ''jpeg-bytes'' (bucket_name live_config) ''img/a b.jpg'']"
  have gen: "generate_s3_key ?e ''https://h/img/a b.PNG'' = Inr ''img/a b.jpg''" by code_simp
  have probe: "check_s3_object_exists_and_accessible live_config ?e [] ''img/a b.jpg'' =
                 (Inr (True, 404, ''NOT_EXISTS'', ''img/a b.jpg''), ?w1)" by code_simp
  have live: "\<not> dry_run live_config" by (simp add: live_config_def example_config_def)
  have dbg: "None = (if debug_save live_config \<and> basename ''img/a b.jpg'' \<noteq> []
                     then Some (path_join (debug_dir live_config) (basename ''img/a b.jpg''))
                     else None)"
    by (simp add: live_config_def example_config_def)
  have fetch: "fetch_bytes ?e ?w1 ''https://h/img/a b.PNG'' = Inr ''png-bytes''"
    by (simp add: store_env_def)
  have norm: "normalize ?e (?w1 @ [FetchBytes ''https://h/img/a b.PNG'']) ''png-bytes''
                (target_width live_config) (target_height live_config) None = Inr ''jpeg-bytes''"
    by (simp add: store_env_def)
  have up: "upload_fileobj ?e (?w1 @ butlast ?moved) ''jpeg-bytes'' (bucket_name live_config)
              ''img/a b.jpg'' = None"
    by (simp add: store_env_def)
  have verify: "check_s3_object_exists_and_accessible live_config ?e (?w1 @ ?moved) ''img/a b.jpg'' =
                  (Inr (False, 200, ''EXISTS_ACCESSIBLE'', ''img/a b.jpg''),
                   (?w1 @ ?moved) @
                   [HeadObject ''bucket'' ''img/a b.jpg'',
                    RequestsHead ''https://bucket.s3.ap-south-1.amazonaws.com/img/a%20b.jpg''])"
    by code_simp
  have u: "get_s3_url live_config ''img/a b.jpg'' =
             ''https://bucket.s3.ap-south-1.amazonaws.com/img/a%20b.jpg''" by code_simp
  have c: "target_width live_config = 1200" "target_height live_config = 800"
    "bucket_name live_config = ''bucket''"
    by (simp_all add: live_config_def example_config_def)
  from upload_then_single_reprobe [OF gen probe live dbg fetch norm refl up verify]
  show ?thesis by (simp add: u c)
qed

theorem upload_then_single_reprobe_counterexample:
  "\<not> dry_run live_config
   \<and> fst (check_s3_object_exists_and_accessible live_config
       ((store_env ''/img/a b.PNG'' [] 404)
          \<lparr>fetch_bytes := (\<lambda>w u. Inl (RequestException ''404 Client Error: Not Found''))\<rparr>)
       [] ''img/a b.jpg'') = Inr (True, 404, ''NOT_EXISTS'', ''img/a b.jpg'')
   \<and> process_single_image live_config
       ((store_env ''/img/a b.PNG'' [] 404)
          \<lparr>fetch_bytes := (\<lambda>w u. Inl (RequestException ''404 Client Error: Not Found''))\<rparr>)
       [] ''https://h/img/a b.PNG'' =
       (([], ''ERROR: 404 Client Error: Not Found'', [], 0),
        [HeadObject ''bucket'' ''img/a b.jpg'', HeadObject ''bucket'' ''img/a%20b.jpg'',
         FetchBytes ''https://h/img/a b.PNG''])"
  by code_simp

text \<open>
  Claim C5 (as amended). When the probe reports that the object exists and the public
  check returned 403, and the run is a dry run, \<open>process_single_image\<close> makes no call
  beyond those of the probe (no upload), returns response code 403, and the status is
  \<open>WOULD_UPLOAD_EXISTS_403_REUPLOAD\<close>: it starts with \<open>WOULD_UPLOAD_EXISTS_403\<close>,
  so it contains the would-upload marker and 403, but it is not that label alone.
\<close>

theorem dry_run_403_label:
  assumes gen: "generate_s3_key e url = Inr s3_key"
    and probe: "check_s3_object_exists_and_accessible cfg e w s3_key =
                  (Inr (True, 403, ''EXISTS_403_REUPLOAD'', ak), w1)"
    and dry: "dry_run cfg"
  shows "process_single_image cfg e w url =
           ((ak, ''WOULD_UPLOAD_EXISTS_403_REUPLOAD'', get_s3_url cfg ak, 403), w1)
         \<and> (\<exists>evs. w1 = w @ evs \<and> list_all is_probe_event evs)
         \<and> startswith ''WOULD_UPLOAD_EXISTS_403_REUPLOAD'' ''WOULD_UPLOAD_EXISTS_403''
         \<and> str_contains ''WOULD_UPLOAD_EXISTS_403_REUPLOAD'' ''WOULD_UPLOAD''
         \<and> str_contains ''WOULD_UPLOAD_EXISTS_403_REUPLOAD'' ''403''"
proof -
  have run: "process_single_image cfg e w url =
           ((ak, ''WOULD_UPLOAD_EXISTS_403_REUPLOAD'', get_s3_url cfg ak, 403), w1)"
    by (simp add: process_single_image_def process_single_image_try_def gen probe dry)
  have l1: "startswith ''WOULD_UPLOAD_EXISTS_403_REUPLOAD'' ''WOULD_UPLOAD_EXISTS_403''"
    by code_simp
  have l2: "str_contains ''WOULD_UPLOAD_EXISTS_403_REUPLOAD'' ''WOULD_UPLOAD''" by code_simp
  have l3: "str_contains ''WOULD_UPLOAD_EXISTS_403_REUPLOAD'' ''403''" by code_simp
  from run check_events [OF probe] l1 l2 l3 show ?thesis by blast
qed

theorem dry_run_403_label_witness:
  "generate_s3_key (store_env ''/img/a b.PNG'' [''img/a b.jpg''] 403)
     ''https://h/img/a b.PNG'' = Inr ''img/a b.jpg''
   \<and> check_s3_object_exists_and_accessible example_config
       (store_env ''/img/a b.PNG'' [''img/a b.jpg''] 403) [] ''img/a b.jpg'' =
       (Inr (True, 403, ''EXISTS_403_REUPLOAD'', ''img/a b.jpg''),
        [HeadObject ''bucket'' ''img/a b.jpg'',
         RequestsHead ''https://bucket.s3.ap-south-1.amazonaws.com/img/a%20b.jpg''])
   \<and> dry_run example_config
   \<and> process_single_image example_config
       (store_env ''/img/a b.PNG'' [''img/a b.jpg''] 403) [] ''https://h/img/a b.PNG'' =
       ((''img/a b.jpg'', ''WOULD_UPLOAD_EXISTS_403_REUPLOAD'',
         ''https://bucket.s3.ap-south-1.amazonaws.com/img/a%20b.jpg'', 403),
        [HeadObject ''bucket'' ''img/a b.jpg'',
         RequestsHead ''https://bucket.s3.ap-south-1.amazonaws.com/img/a%20b.jpg''])"
proof -
  have gen: "generate_s3_key (store_env ''/img/a b.PNG'' [''img/a b.jpg''] 403)
     ''https://h/img/a b.PNG'' = Inr ''img/a b.jpg''" by code_simp
  have probe: "check_s3_object_exists_and_accessible example_config
       (store_env ''/img/a b.PNG'' [''img/a b.jpg''] 403) [] ''img/a b.jpg'' =
       (Inr (True, 403, ''EXISTS_403_REUPLOAD'', ''img/a b.jpg''),
        [HeadObject ''bucket'' ''img/a b.jpg'',
         RequestsHead ''https://bucket.s3.ap-south-1.amazonaws.com/img/a%20b.jpg''])"
    by code_simp
  have dry: "dry_run example_config" by (simp add: example_config_def)
  have u: "get_s3_url example_config ''img/a b.jpg'' =
             ''https://bucket.s3.ap-south-1.amazonaws.com/img/a%20b.jpg''" by code_simp
  from dry_run_403_label [OF gen probe dry] gen probe dry show ?thesis by (simp only: u)
qed

theorem dry_run_403_label_counterexample:
  "process_single_image example_config
     (store_env ''/img/a b.PNG'' [''img/a b.jpg''] 403) [] ''https://h/img/a b.PNG'' =
     ((''img/a b.jpg'', ''WOULD_UPLOAD_EXISTS_403_REUPLOAD'',
       ''https://bucket.s3.ap-south-1.amazonaws.com/img/a%20b.jpg'', 403),
      [HeadObject ''bucket'' ''img/a b.jpg'',
       RequestsHead ''https://bucket.s3.ap-south-1.amazonaws.com/img/a%20b.jpg''])
   \<and> fst (snd (fst (process_single_image example_config
         (store_env ''/img/a b.PNG'' [''img/a b.jpg''] 403) [] ''https://h/img/a b.PNG''))) \<noteq>
       ''WOULD_UPLOAD_EXISTS_403''"
  by code_simp

section \<open>The loop over the rows\<close>

lemma process_rows_length: "length (fst (process_rows cfg e rows w c)) = length rows"
proof (induction rows arbitrary: w c)
  case Nil
  then show ?case by simp
next
  case (Cons row rows)
  obtain r w1 c1 where r: "process_row cfg e row w c = (r, w1, c1)"
    by (cases "process_row cfg e row w c") auto
  obtain rs w2 c2 where rs: "process_rows cfg e rows w1 c1 = (rs, w2, c2)"
    by (cases "process_rows cfg e rows w1 c1") auto
  from Cons.IH [of w1 c1] r rs show ?case by (simp del: process_row.simps)
qed

lemma process_rows_append:
  "process_rows cfg e (pre @ rows) w c =
     (case process_rows cfg e pre w c of
        (rs1, w1, c1) \<Rightarrow>
          (case process_rows cfg e rows w1 c1 of
             (rs2, w2, c2) \<Rightarrow> (rs1 @ rs2, w2, c2)))"
  by (induction pre arbitrary: w c) (auto simp del: process_row.simps split: prod.splits)

lemma count_status_error:
  "count_status (''ERROR: '' @ m) c = c\<lparr>error_count := error_count c + 1\<rparr>"
  by (simp add: count_status_def)

lemma count_status_total: "counter_sum (count_status status c) = counter_sum c + 1"
  by (simp add: count_status_def counter_sum_def)

lemma process_row_total:
  "counter_sum (snd (snd (process_row cfg e row w c))) = counter_sum c + 1"
proof (cases "is_placeholder row")
  case True
  then show ?thesis by (simp add: counter_sum_def)
next
  case False
  then obtain u where u: "row = Str u" by (cases row) auto
  obtain k s l n w' where p: "process_single_image cfg e w u = ((k, s, l, n), w')"
    by (cases "process_single_image cfg e w u") auto
  from False u p show ?thesis by (simp add: count_status_total)
qed

lemma process_rows_total:
  "counter_sum (snd (snd (process_rows cfg e rows w c))) = counter_sum c + length rows"
proof (induction rows arbitrary: w c)
  case Nil
  then show ?case by simp
next
  case (Cons row rows)
  obtain r w1 c1 where r: "process_row cfg e row w c = (r, w1, c1)"
    by (cases "process_row cfg e row w c") auto
  obtain rs w2 c2 where rs: "process_rows cfg e rows w1 c1 = (rs, w2, c2)"
    by (cases "process_rows cfg e rows w1 c1") auto
  have "counter_sum c1 = counter_sum c + 1"
    using process_row_total [of cfg e row w c] r by (simp del: process_row.simps)
  moreover have "counter_sum c2 = counter_sum c1 + length rows" using Cons.IH [of w1 c1] rs by simp
  ultimately show ?case using r rs by (simp del: process_row.simps)
qed

lemma would_upload_prefix:
  "startswith s ''WOULD_UPLOAD_EXISTS_403'' \<Longrightarrow> startswith s ''WOULD_UPLOAD''"
proof -
  assume "startswith s ''WOULD_UPLOAD_EXISTS_403''"
  from startswith_append [OF this] obtain r where "s = ''WOULD_UPLOAD_EXISTS_403'' @ r" by blast
  then show ?thesis by simp
qed

lemma count_status_reupload:
  "(count_status status c = c\<lparr>reupload_count := reupload_count c + 1\<rparr>) =
   (startswith status ''WOULD_UPLOAD_EXISTS_403'' \<or>
    (startswith status ''UPLOADED'' \<and> str_contains status ''403''))"
  using would_upload_prefix [of status]
  by (cases c) (auto simp: count_status_def)

lemma count_status_cases:
  "count_status status c = c\<lparr>uploaded_count := uploaded_count c + 1\<rparr> \<or>
   count_status status c = c\<lparr>exists_count := exists_count c + 1\<rparr> \<or>
   count_status status c = c\<lparr>reupload_count := reupload_count c + 1\<rparr> \<or>
   count_status status c = c\<lparr>error_count := error_count c + 1\<rparr>"
  by (simp add: count_status_def)

text \<open>
  Claim C8. The loop of \<open>main\<close> writes exactly one result (key, status, response code,
  public URL) for every row, in the order of the rows, and what it does on a row and on
  the rows after it does not depend on whether an earlier row failed: the results of
  \<open>pre @ row # post\<close> are those of \<open>pre\<close>, the one of \<open>row\<close> and those of
  \<open>post\<close>, one for each row of \<open>post\<close>. Whatever the body of
  \<open>process_single_image\<close> raises becomes the result with empty key, empty URL, response
  code 0 and the label \<open>ERROR: \<close> followed by the text of the exception, counted as an
  error; the body raises when key derivation, the probe, the download and Pillow
  pipeline, or the upload raises.
\<close>

theorem every_row_one_result:
  "length (fst (main_loop cfg e rows w)) = length rows
   \<and> process_rows cfg e (pre @ row # post) w c =
       (case process_rows cfg e pre w c of
          (rs1, w1, c1) \<Rightarrow>
            (case process_row cfg e row w1 c1 of
               (r, w2, c2) \<Rightarrow>
                 (case process_rows cfg e post w2 c2 of
                    (rs3, w3, c3) \<Rightarrow> (rs1 @ r # rs3, w3, c3))))
   \<and> length (fst (process_rows cfg e post w2 c2)) = length post
   \<and> (process_single_image_try cfg e w url = (Inl x, w') \<longrightarrow>
        process_single_image cfg e w url = (([], ''ERROR: '' @ exn_str x, [], 0), w'))
   \<and> (process_single_image_try cfg e w url = (Inl x, w') \<and> \<not> is_placeholder (Str url) \<longrightarrow>
        process_row cfg e (Str url) w c =
          (\<lparr>S3_Key = [], Processing_Status = ''ERROR: '' @ exn_str x, HTTP_Response_Code = 0,
            result_column = []\<rparr>, w', c\<lparr>error_count := error_count c + 1\<rparr>))
   \<and> (generate_s3_key e url = Inl x \<longrightarrow>
        process_single_image_try cfg e w url = (Inl x, w))
   \<and> (generate_s3_key e url = Inr k \<and>
        check_s3_object_exists_and_accessible cfg e w k = (Inl x, w1) \<longrightarrow>
        process_single_image_try cfg e w url = (Inl x, w1))
   \<and> (generate_s3_key e url = Inr k \<and>
        check_s3_object_exists_and_accessible cfg e w k = (Inr (True, sc, st, ak), w1) \<and>
        \<not> dry_run cfg \<and>
        process_image_from_url cfg e w1 url
          (if debug_save cfg then Some (basename ak) else None) = (Inl x, wi) \<longrightarrow>
        process_single_image_try cfg e w url = (Inl x, wi))
   \<and> (generate_s3_key e url = Inr k \<and>
        check_s3_object_exists_and_accessible cfg e w k = (Inr (True, sc, st, ak), w1) \<and>
        \<not> dry_run cfg \<and>
        process_image_from_url cfg e w1 url
          (if debug_save cfg then Some (basename ak) else None) = (Inr buf, wi) \<and>
        upload_fileobj e wi buf (bucket_name cfg) ak = Some x \<longrightarrow>
        process_single_image_try cfg e w url =
          (Inl x, wi @ [UploadFileobj buf (bucket_name cfg) ak]))"
proof -
  have a: "length (fst (main_loop cfg e rows w)) = length rows"
    by (simp add: main_loop_def process_rows_length)
  have b: "process_rows cfg e (pre @ row # post) w c =
       (case process_rows cfg e pre w c of
          (rs1, w1, c1) \<Rightarrow>
            (case process_row cfg e row w1 c1 of
               (r, w2, c2) \<Rightarrow>
                 (case process_rows cfg e post w2 c2 of
                    (rs3, w3, c3) \<Rightarrow> (rs1 @ r # rs3, w3, c3))))"
    by (simp del: process_row.simps add: process_rows_append split: prod.splits)
  have b': "length (fst (process_rows cfg e post w2 c2)) = length post"
    by (rule process_rows_length)
  have c1: "process_single_image_try cfg e w url = (Inl x, w') \<longrightarrow>
        process_single_image cfg e w url = (([], ''ERROR: '' @ exn_str x, [], 0), w')"
    by (simp add: process_single_image_def)
  have c2: "process_single_image_try cfg e w url = (Inl x, w') \<and> \<not> is_placeholder (Str url) \<longrightarrow>
        process_row cfg e (Str url) w c =
          (\<lparr>S3_Key = [], Processing_Status = ''ERROR: '' @ exn_str x, HTTP_Response_Code = 0,
            result_column = []\<rparr>, w', c\<lparr>error_count := error_count c + 1\<rparr>)"
    using count_status_error [of "exn_str x" c] by (auto simp: process_single_image_def)
  have d1: "generate_s3_key e url = Inl x \<longrightarrow>
        process_single_image_try cfg e w url = (Inl x, w)"
    by (simp add: process_single_image_try_def)
  have d2: "generate_s3_key e url = Inr k \<and>
        check_s3_object_exists_and_accessible cfg e w k = (Inl x, w1) \<longrightarrow>
        process_single_image_try cfg e w url = (Inl x, w1)"
    by (simp add: process_single_image_try_def)
  have d3: "generate_s3_key e url = Inr k \<and>
        check_s3_object_exists_and_accessible cfg e w k = (Inr (True, sc, st, ak), w1) \<and>
        \<not> dry_run cfg \<and>
        process_image_from_url cfg e w1 url
          (if debug_save cfg then Some (basename ak) else None) = (Inl x, wi) \<longrightarrow>
        process_single_image_try cfg e w url = (Inl x, wi)"
    by (simp add: process_single_image_try_def Let_def)
  have d4: "generate_s3_key e url = Inr k \<and>
        check_s3_object_exists_and_accessible cfg e w k = (Inr (True, sc, st, ak), w1) \<and>
        \<not> dry_run cfg \<and>
        process_image_from_url cfg e w1 url
          (if debug_save cfg then Some (basename ak) else None) = (Inr buf, wi) \<and>
        upload_fileobj e wi buf (bucket_name cfg) ak = Some x \<longrightarrow>
        process_single_image_try cfg e w url =
          (Inl x, wi @ [UploadFileobj buf (bucket_name cfg) ak])"
    by (simp add: process_single_image_try_def upload_to_s3_def Let_def)
  from a b b' c1 c2 d1 d2 d3 d4 show ?thesis by blast
qed

theorem every_row_one_result_witness:
  "process_single_image live_config (unparsable (store_env ''/img/a b.PNG'' [] 404)) []
     ''http://[::1/a.png'' = (([], ''ERROR: Invalid IPv6 URL'', [], 0), [])
   \<and> process_single_image live_config (odd_error_code (store_env ''/img/a b.PNG'' [] 404)) []
       ''https://h/img/a b.PNG'' =
       (([], ''ERROR: invalid literal for int() with base 10'', [], 0),
        [HeadObject ''bucket'' ''img/a b.jpg''])
   \<and> process_single_image live_config (upload_denied (store_env ''/img/a b.PNG'' [] 404)) []
       ''https://h/img/a b.PNG'' =
       (([], ''ERROR: Access Denied'', [], 0),
        [HeadObject ''bucket'' ''img/a b.jpg'', HeadObject ''bucket'' ''img/a%20b.jpg'',
         FetchBytes ''https://h/img/a b.PNG'', Normalize ''png-bytes'' 1200 800 None,
         UploadFileobj ''jpeg-bytes'' ''bucket'' ''img/a b.jpg''])
   \<and> process_row live_config
       (download_fails ''https://h/gone.PNG'' (store_env ''/img/a b.PNG'' [] 404))
       (Str ''https://h/gone.PNG'') [] zero_counters =
       (\<lparr>S3_Key = [], Processing_Status = ''ERROR: 404 Client Error: Not Found'',
          HTTP_Response_Code = 0, result_column = []\<rparr>,
        [HeadObject ''bucket'' ''img/a b.jpg'', HeadObject ''bucket'' ''img/a%20b.jpg'',
         FetchBytes ''https://h/gone.PNG''],
        zero_counters\<lparr>error_count := error_count zero_counters + 1\<rparr>)
   \<and> length (fst (main_loop live_config
         (download_fails ''https://h/gone.PNG'' (store_env ''/img/a b.PNG'' [] 404))
         [Str ''https://h/gone.PNG'', Str ''pending'', Str ''https://h/img/a b.PNG''] [])) = 3
   \<and> map Processing_Status (fst (main_loop live_config
         (download_fails ''https://h/gone.PNG'' (store_env ''/img/a b.PNG'' [] 404))
         [Str ''https://h/gone.PNG'', Str ''pending'', Str ''https://h/img/a b.PNG''] [])) =
       [''ERROR: 404 Client Error: Not Found'', ''SKIPPED_INVALID_URL'', ''UPLOADED_OK'']"
proof -
  let ?S = "store_env ''/img/a b.PNG'' [] 404"
  let ?good = "''https://h/img/a b.PNG''"
  let ?gone = "''https://h/gone.PNG''"
  let ?w1 = "[HeadObject ''bucket'' ''img/a b.jpg'', HeadObject ''bucket'' ''img/a%20b.jpg'']"
  have live: "\<not> dry_run live_config" by (simp add: live_config_def example_config_def)
  have b: "bucket_name live_config = ''bucket''" by (simp add: live_config_def example_config_def)
  \<comment> \<open>key derivation raises\<close>
  have genA: "generate_s3_key (unparsable ?S) ''http://[::1/a.png'' =
                Inl (ValueError ''Invalid IPv6 URL'')" by code_simp
  from every_row_one_result [where cfg = live_config and e = "unparsable ?S" and w = "[]"
         and url = "''http://[::1/a.png''" and x = "ValueError ''Invalid IPv6 URL''"
         and w' = "[]"] genA
  have A: "process_single_image live_config (unparsable ?S) [] ''http://[::1/a.png'' =
             (([], ''ERROR: '' @ exn_str (ValueError ''Invalid IPv6 URL''), [], 0), [])"
    by blast
  \<comment> \<open>the probe raises\<close>
  have genB: "generate_s3_key (odd_error_code ?S) ?good = Inr ''img/a b.jpg''" by code_simp
  have chkB: "check_s3_object_exists_and_accessible live_config (odd_error_code ?S) []
                ''img/a b.jpg'' =
                (Inl (ValueError ''invalid literal for int() with base 10''),
                 [HeadObject ''bucket'' ''img/a b.jpg''])" by code_simp
  from every_row_one_result [where cfg = live_config and e = "odd_error_code ?S" and w = "[]"
         and url = ?good and x = "ValueError ''invalid literal for int() with base 10''"
         and w' = "[HeadObject ''bucket'' ''img/a b.jpg'']" and k = "''img/a b.jpg''"
         and ?w1.0 = "[HeadObject ''bucket'' ''img/a b.jpg'']"] genB chkB
  have B: "process_single_image live_config (odd_error_code ?S) [] ?good =
             (([], ''ERROR: '' @ exn_str (ValueError ''invalid literal for int() with base 10''),
               [], 0), [HeadObject ''bucket'' ''img/a b.jpg''])"
    by blast
  \<comment> \<open>the upload raises\<close>
  have genD: "generate_s3_key (upload_denied ?S) ?good = Inr ''img/a b.jpg''" by code_simp
  have chkD: "check_s3_object_exists_and_accessible live_config (upload_denied ?S) []
                ''img/a b.jpg'' = (Inr (True, 404, ''NOT_EXISTS'', ''img/a b.jpg''), ?w1)"
    by code_simp
  have imgD: "process_image_from_url live_config (upload_denied ?S) ?w1 ?good
                (if debug_save live_config then Some (basename ''img/a b.jpg'') else None) =
                (Inr ''jpeg-bytes'',
                 ?w1 @ [FetchBytes ?good, Normalize ''png-bytes'' 1200 800 None])"
    by code_simp
  have upD: "upload_fileobj (upload_denied ?S)
               (?w1 @ [FetchBytes ?good, Normalize ''png-bytes'' 1200 800 None])
               ''jpeg-bytes'' (bucket_name live_config) ''img/a b.jpg'' =
               Some (OtherException ''Access Denied'')"
    by (simp add: upload_denied_def)
  from every_row_one_result [where cfg = live_config and e = "upload_denied ?S" and w = "[]"
         and url = ?good and x = "OtherException ''Access Denied''"
         and w' = "(?w1 @ [FetchBytes ?good, Normalize ''png-bytes'' 1200 800 None]) @
                   [UploadFileobj ''jpeg-bytes'' (bucket_name live_config) ''img/a b.jpg'']"
         and k = "''img/a b.jpg''" and ?w1.0 = ?w1 and sc = 404 and st = "''NOT_EXISTS''"
         and ak = "''img/a b.jpg''" and buf = "''jpeg-bytes''"
         and wi = "?w1 @ [FetchBytes ?good, Normalize ''png-bytes'' 1200 800 None]"]
       genD chkD live imgD upD
  have D: "process_single_image live_config (upload_denied ?S) [] ?good =
             (([], ''ERROR: '' @ exn_str (OtherException ''Access Denied''), [], 0),
              (?w1 @ [FetchBytes ?good, Normalize ''png-bytes'' 1200 800 None]) @
              [UploadFileobj ''jpeg-bytes'' (bucket_name live_config) ''img/a b.jpg''])"
    by blast
  \<comment> \<open>the download raises; the rows after it are still processed\<close>
  have genC: "generate_s3_key (download_fails ?gone ?S) ?gone = Inr ''img/a b.jpg''"
    by code_simp
  have chkC: "check_s3_object_exists_and_accessible live_config (download_fails ?gone ?S) []
                ''img/a b.jpg'' = (Inr (True, 404, ''NOT_EXISTS'', ''img/a b.jpg''), ?w1)"
    by code_simp
  have imgC: "process_image_from_url live_config (download_fails ?gone ?S) ?w1 ?gone
                (if debug_save live_config then Some (basename ''img/a b.jpg'') else None) =
                (Inl (RequestException ''404 Client Error: Not Found''),
                 ?w1 @ [FetchBytes ?gone])"
    by code_simp
  have np: "\<not> is_placeholder (Str ?gone)" by code_simp
  note tC = every_row_one_result [where cfg = live_config and e = "download_fails ?gone ?S"
         and w = "[]" and url = ?gone
         and x = "RequestException ''404 Client Error: Not Found''"
         and w' = "?w1 @ [FetchBytes ?gone]" and k = "''img/a b.jpg''" and ?w1.0 = ?w1
         and sc = 404 and st = "''NOT_EXISTS''" and ak = "''img/a b.jpg''"
         and wi = "?w1 @ [FetchBytes ?gone]" and c = zero_counters
         and rows = "[Str ?gone, Str ''pending'', Str ?good]"]
  from tC genC chkC live imgC
  have tryC: "process_single_image_try live_config (download_fails ?gone ?S) [] ?gone =
                (Inl (RequestException ''404 Client Error: Not Found''), ?w1 @ [FetchBytes ?gone])"
    by blast
  from tC tryC np
  have C: "process_row live_config (download_fails ?gone ?S) (Str ?gone) [] zero_counters =
             (\<lparr>S3_Key = [],
                Processing_Status =
                  ''ERROR: '' @ exn_str (RequestException ''404 Client Error: Not Found''),
                HTTP_Response_Code = 0, result_column = []\<rparr>,
              ?w1 @ [FetchBytes ?gone],
              zero_counters\<lparr>error_count := error_count zero_counters + 1\<rparr>)"
    by blast
  from tC have L: "length (fst (main_loop live_config (download_fails ?gone ?S)
                     [Str ?gone, Str ''pending'', Str ?good] [])) =
                   length [Str ?gone, Str ''pending'', Str ?good]"
    by blast
  have M: "map Processing_Status (fst (main_loop live_config (download_fails ?gone ?S)
             [Str ?gone, Str ''pending'', Str ?good] [])) =
           [''ERROR: 404 Client Error: Not Found'', ''SKIPPED_INVALID_URL'', ''UPLOADED_OK'']"
    by code_simp
  from A B D C L M show ?thesis by (simp add: b)
qed

text \<open>
  Claim C10. Every row adds one to exactly one of the four counters, so after the loop
  the counters, which start at zero, sum to the number of rows. A skipped row (missing
  or placeholder value) is counted as an error. A row is counted as a re-upload exactly
  when its status starts with \<open>WOULD_UPLOAD_EXISTS_403\<close>, or starts with \<open>UPLOADED\<close>
  and contains \<open>403\<close>.
\<close>

theorem counters_partition_rows:
  "counter_sum (snd (snd (main_loop cfg e rows w))) = length rows
   \<and> counter_sum (snd (snd (process_row cfg e row w c))) = counter_sum c + 1
   \<and> (snd (snd (process_row cfg e row w c)) = c\<lparr>uploaded_count := uploaded_count c + 1\<rparr> \<or>
       snd (snd (process_row cfg e row w c)) = c\<lparr>exists_count := exists_count c + 1\<rparr> \<or>
       snd (snd (process_row cfg e row w c)) = c\<lparr>reupload_count := reupload_count c + 1\<rparr> \<or>
       snd (snd (process_row cfg e row w c)) = c\<lparr>error_count := error_count c + 1\<rparr>)
   \<and> (is_placeholder row \<longrightarrow>
        process_row cfg e row w c =
          (\<lparr>S3_Key = [], Processing_Status = ''SKIPPED_INVALID_URL'', HTTP_Response_Code = 0,
            result_column = []\<rparr>, w, c\<lparr>error_count := error_count c + 1\<rparr>))
   \<and> (snd (snd (process_row cfg e row w c)) = c\<lparr>reupload_count := reupload_count c + 1\<rparr>) =
       (startswith (Processing_Status (fst (process_row cfg e row w c)))
          ''WOULD_UPLOAD_EXISTS_403'' \<or>
        (startswith (Processing_Status (fst (process_row cfg e row w c))) ''UPLOADED'' \<and>
         str_contains (Processing_Status (fst (process_row cfg e row w c))) ''403''))"
proof -
  have z: "counter_sum zero_counters = 0" by (simp add: counter_sum_def zero_counters_def)
  have a: "counter_sum (snd (snd (main_loop cfg e rows w))) = length rows"
    by (simp add: main_loop_def process_rows_total z)
  have b: "counter_sum (snd (snd (process_row cfg e row w c))) = counter_sum c + 1"
    by (rule process_row_total)
  have skip: "is_placeholder row \<longrightarrow>
        process_row cfg e row w c =
          (\<lparr>S3_Key = [], Processing_Status = ''SKIPPED_INVALID_URL'', HTTP_Response_Code = 0,
            result_column = []\<rparr>, w, c\<lparr>error_count := error_count c + 1\<rparr>)"
    by simp
  have d: "snd (snd (process_row cfg e row w c)) = c\<lparr>uploaded_count := uploaded_count c + 1\<rparr> \<or>
       snd (snd (process_row cfg e row w c)) = c\<lparr>exists_count := exists_count c + 1\<rparr> \<or>
       snd (snd (process_row cfg e row w c)) = c\<lparr>reupload_count := reupload_count c + 1\<rparr> \<or>
       snd (snd (process_row cfg e row w c)) = c\<lparr>error_count := error_count c + 1\<rparr>"
  proof (cases "is_placeholder row")
    case True
    then show ?thesis by simp
  next
    case False
    then obtain u where u: "row = Str u" by (cases row) auto
    obtain k s l n w' where p: "process_single_image cfg e w u = ((k, s, l, n), w')"
      by (cases "process_single_image cfg e w u") auto
    from False u p count_status_cases [of s c] show ?thesis by simp
  qed
  have r: "(snd (snd (process_row cfg e row w c)) = c\<lparr>reupload_count := reupload_count c + 1\<rparr>) =
       (startswith (Processing_Status (fst (process_row cfg e row w c)))
          ''WOULD_UPLOAD_EXISTS_403'' \<or>
        (startswith (Processing_Status (fst (process_row cfg e row w c))) ''UPLOADED'' \<and>
         str_contains (Processing_Status (fst (process_row cfg e row w c))) ''403''))"
  proof (cases "is_placeholder row")
    case True
    then show ?thesis by (cases c) simp
  next
    case False
    then obtain u where u: "row = Str u" by (cases row) auto
    obtain k s l n w' where p: "process_single_image cfg e w u = ((k, s, l, n), w')"
      by (cases "process_single_image cfg e w u") auto
    from False u p count_status_reupload [of s c] show ?thesis by simp
  qed
  from a b d skip r show ?thesis by blast
qed

theorem counters_partition_rows_witness:
  "is_placeholder (Str '' n/a '')
   \<and> main_loop example_config (store_env ''/img/a b.PNG'' [''img/a b.jpg''] 403)
       [NaN, Str ''https://h/img/a b.PNG'', Str '' n/a ''] [] =
       ([\<lparr>S3_Key = [], Processing_Status = ''SKIPPED_INVALID_URL'', HTTP_Response_Code = 0,
          result_column = []\<rparr>,
         \<lparr>S3_Key = ''img/a b.jpg'', Processing_Status = ''WOULD_UPLOAD_EXISTS_403_REUPLOAD'',
          HTTP_Response_Code = 403,
          result_column = ''https://bucket.s3.ap-south-1.amazonaws.com/img/a%20b.jpg''\<rparr>,
         \<lparr>S3_Key = [], Processing_Status = ''SKIPPED_INVALID_URL'', HTTP_Response_Code = 0,
          result_column = []\<rparr>],
        [HeadObject ''bucket'' ''img/a b.jpg'',
         RequestsHead ''https://bucket.s3.ap-south-1.amazonaws.com/img/a%20b.jpg''],
        \<lparr>uploaded_count = 0, exists_count = 0, reupload_count = 1, error_count = 2\<rparr>)
   \<and> counter_sum (snd (snd (main_loop example_config
         (store_env ''/img/a b.PNG'' [''img/a b.jpg''] 403)
         [NaN, Str ''https://h/img/a b.PNG'', Str '' n/a ''] []))) = 3
   \<and> process_row example_config (store_env ''/img/a b.PNG'' [''img/a b.jpg''] 403)
       (Str '' n/a '') [] zero_counters =
       (\<lparr>S3_Key = [], Processing_Status = ''SKIPPED_INVALID_URL'', HTTP_Response_Code = 0,
          result_column = []\<rparr>, [],
        zero_counters\<lparr>error_count := error_count zero_counters + 1\<rparr>)"
proof -
  have h: "is_placeholder (Str '' n/a '')" by code_simp
  have run: "main_loop example_config (store_env ''/img/a b.PNG'' [''img/a b.jpg''] 403)
       [NaN, Str ''https://h/img/a b.PNG'', Str '' n/a ''] [] =
       ([\<lparr>S3_Key = [], Processing_Status = ''SKIPPED_INVALID_URL'', HTTP_Response_Code = 0,
          result_column = []\<rparr>,
         \<lparr>S3_Key = ''img/a b.jpg'', Processing_Status = ''WOULD_UPLOAD_EXISTS_403_REUPLOAD'',
          HTTP_Response_Code = 403,
          result_column = ''https://bucket.s3.ap-south-1.amazonaws.com/img/a%20b.jpg''\<rparr>,
         \<lparr>S3_Key = [], Processing_Status = ''SKIPPED_INVALID_URL'', HTTP_Response_Code = 0,
          result_column = []\<rparr>],
        [HeadObject ''bucket'' ''img/a b.jpg'',
         RequestsHead ''https://bucket.s3.ap-south-1.amazonaws.com/img/a%20b.jpg''],
        \<lparr>uploaded_count = 0, exists_count = 0, reupload_count = 1, error_count = 2\<rparr>)"
    by code_simp
  from counters_partition_rows [where cfg = example_config
         and e = "store_env ''/img/a b.PNG'' [''img/a b.jpg''] 403"
         and rows = "[NaN, Str ''https://h/img/a b.PNG'', Str '' n/a '']" and w = "[]"
         and row = "Str '' n/a ''" and c = zero_counters]
  have t: "counter_sum (snd (snd (main_loop example_config
         (store_env ''/img/a b.PNG'' [''img/a b.jpg''] 403)
         [NaN, Str ''https://h/img/a b.PNG'', Str '' n/a ''] []))) =
         length [NaN, Str ''https://h/img/a b.PNG'', Str '' n/a '']"
    and s: "is_placeholder (Str '' n/a '') \<longrightarrow>
       process_row example_config (store_env ''/img/a b.PNG'' [''img/a b.jpg''] 403)
       (Str '' n/a '') [] zero_counters =
       (\<lparr>S3_Key = [], Processing_Status = ''SKIPPED_INVALID_URL'', HTTP_Response_Code = 0,
          result_column = []\<rparr>, [],
        zero_counters\<lparr>error_count := error_count zero_counters + 1\<rparr>)"
    by blast+
  from t have t': "counter_sum (snd (snd (main_loop example_config
         (store_env ''/img/a b.PNG'' [''img/a b.jpg''] 403)
         [NaN, Str ''https://h/img/a b.PNG'', Str '' n/a ''] []))) = 3" by simp
  from h s have s': "process_row example_config (store_env ''/img/a b.PNG'' [''img/a b.jpg''] 403)
       (Str '' n/a '') [] zero_counters =
       (\<lparr>S3_Key = [], Processing_Status = ''SKIPPED_INVALID_URL'', HTTP_Response_Code = 0,
          result_column = []\<rparr>, [],
        zero_counters\<lparr>error_count := error_count zero_counters + 1\<rparr>)" by blast
  from h run t' s' show ?thesis by blast
qed

end
